theory Spec2Isabelle
  imports Main "HOL-Library.Sublist"
begin

text \<open>
  A model of the protocol bridge of \<^verbatim>\<open>copilot_server.py\<close>: the frame codec that
  \<^verbatim>\<open>lsp_send\<close> and \<^verbatim>\<open>read_lsp_messages\<close> implement, the request registry, the router
  \<^verbatim>\<open>handle_lsp_message\<close> with \<^verbatim>\<open>dispatch_lsp_response\<close>, and the command channel of
  \<^verbatim>\<open>handle_plugin_message\<close> and \<^verbatim>\<open>cmd_file_watcher\<close>.  Every function of the source is a
  function of the same name here, on an explicit state; an exception is a value; the JSON
  library is a parameter.  The definitions come first, then the lemmas, then the
  properties of the specification, one subsection each.
\<close>

section \<open>Bytes and the Python built-ins the frame codec calls\<close>

text \<open>
  A \<^verbatim>\<open>bytes\<close> object is a list of characters (a character is one byte).  The functions
  of this section are the built-ins used by \<^verbatim>\<open>read_lsp_messages\<close> and \<^verbatim>\<open>lsp_send\<close> in
  \<^verbatim>\<open>copilot_server.py\<close>: \<^verbatim>\<open>find\<close>, \<^verbatim>\<open>split\<close>, \<^verbatim>\<open>lower\<close>, \<^verbatim>\<open>startswith\<close>, \<^verbatim>\<open>strip\<close>,
  \<^verbatim>\<open>int\<close>, slicing and the decimal rendering of a length.
\<close>

type_synonym bytes = "char list"

text \<open>
  The exceptions the modelled code can raise, by the class an \<^verbatim>\<open>except\<close> clause of the
  source tests.  \<open>ValueError\<close> also stands for its subclass \<^verbatim>\<open>UnicodeDecodeError\<close> where no
  clause in reach tells the two apart.  (The two exceptions of \<^verbatim>\<open>json.loads\<close> that the source
  catches on the spot are the \<open>None\<close> of the parser, not values of this type.)
\<close>

datatype py_error = AttributeError | TypeError | KeyError | ValueError | OSError

definition CR :: char where "CR = CHR 0x0D"
definition LF :: char where "LF = CHR 0x0A"

definition crlf :: bytes where "crlf = [CR, LF]"
definition crlf2 :: bytes where "crlf2 = [CR, LF, CR, LF]"

text \<open>\<^verbatim>\<open>buf.find(sub)\<close>: the lowest index where \<open>sub\<close> occurs, \<open>None\<close> for Python's \<open>-1\<close>.\<close>

fun py_find :: "bytes \<Rightarrow> bytes \<Rightarrow> nat option" where
  "py_find [] sub = (if sub = [] then Some 0 else None)"
| "py_find (c # cs) sub =
     (if prefix sub (c # cs) then Some 0 else map_option Suc (py_find cs sub))"

text \<open>
  \<^verbatim>\<open>s.split(sep)\<close> for a non-empty separator: cuts at every occurrence, scanning from
  the left.  (Python raises on an empty separator; the source only splits on the
  literals \<^verbatim>\<open>b"\r\n"\<close> and \<^verbatim>\<open>"\n"\<close>, and the model returns the input whole there.)
\<close>

function py_split :: "bytes \<Rightarrow> bytes \<Rightarrow> bytes list" where
  "py_split sep [] = [[]]"
| "py_split sep (c # cs) =
     (if sep \<noteq> [] \<and> prefix sep (c # cs)
      then [] # py_split sep (drop (length sep) (c # cs))
      else (case py_split sep cs of
              [] \<Rightarrow> [[c]]
            | l # ls \<Rightarrow> (c # l) # ls))"
  by pat_completeness auto
termination
  by (relation "measure (\<lambda>(sep, s). length s)") (auto simp: neq_Nil_conv)

text \<open>\<^verbatim>\<open>bytes.lower()\<close>: only the ASCII letters \<open>A\<close>..\<open>Z\<close> change.\<close>

definition lower_byte :: "char \<Rightarrow> char" where
  "lower_byte c =
     (let n = (of_char c :: nat) in if 65 \<le> n \<and> n \<le> 90 then char_of (n + 32) else c)"

definition py_lower :: "bytes \<Rightarrow> bytes" where
  "py_lower s = map lower_byte s"

text \<open>\<^verbatim>\<open>bytes.strip()\<close>: removes ASCII whitespace (space, tab, LF, VT, FF, CR) at both ends.\<close>

definition is_space :: "char \<Rightarrow> bool" where
  "is_space c = ((of_char c :: nat) \<in> {32, 9, 10, 11, 12, 13})"

definition py_strip :: "bytes \<Rightarrow> bytes" where
  "py_strip s = rev (dropWhile is_space (rev (dropWhile is_space s)))"

text \<open>
  \<^verbatim>\<open>int(b)\<close> on bytes, base ten: surrounding whitespace, an optional sign, then decimal
  digits in which single underscores may separate digits.  \<open>None\<close> stands for the
  \<^verbatim>\<open>ValueError\<close> Python raises on anything else.  (The interpreter's limit on the number
  of digits of a decimal literal is not modelled.)
\<close>

definition is_digit :: "char \<Rightarrow> bool" where
  "is_digit c = (48 \<le> (of_char c :: nat) \<and> (of_char c :: nat) \<le> 57)"

definition digit_val :: "char \<Rightarrow> nat" where
  "digit_val c = of_char c - 48"

fun py_digits :: "nat \<Rightarrow> bytes \<Rightarrow> nat option" where
  "py_digits acc [] = Some acc"
| "py_digits acc (c # cs) =
     (if is_digit c then py_digits (10 * acc + digit_val c) cs
      else if c = CHR ''_'' then
        (case cs of
           [] \<Rightarrow> None
         | d # ds \<Rightarrow> if is_digit d then py_digits (10 * acc + digit_val d) ds else None)
      else None)"

definition py_nat :: "bytes \<Rightarrow> nat option" where
  "py_nat s = (case s of
       [] \<Rightarrow> None
     | c # cs \<Rightarrow> if is_digit c then py_digits (digit_val c) cs else None)"

definition py_int :: "bytes \<Rightarrow> int option" where
  "py_int s = (case py_strip s of
       [] \<Rightarrow> None
     | c # cs \<Rightarrow>
         if c = CHR ''-'' then map_option (\<lambda>n. - int n) (py_nat cs)
         else if c = CHR ''+'' then map_option int (py_nat cs)
         else map_option int (py_nat (c # cs)))"

text \<open>\<^verbatim>\<open>str(n)\<close> for a length \<open>n\<close>: its decimal digits.\<close>

definition digit_char :: "nat \<Rightarrow> char" where
  "digit_char d = char_of (48 + d)"

function show_nat :: "nat \<Rightarrow> bytes" where
  "show_nat n = (if n < 10 then [digit_char n] else show_nat (n div 10) @ [digit_char (n mod 10)])"
  by pat_completeness auto
termination
  by (relation "measure id") auto

text \<open>
  Slices.  \<^verbatim>\<open>buf[i:]\<close> and \<^verbatim>\<open>buf[a:b]\<close> with Python's rule for a negative index (it
  counts from the end and is clamped at the start).  In the source \<open>a\<close> is never negative.
\<close>

definition py_index :: "int \<Rightarrow> nat \<Rightarrow> nat" where
  "py_index i len = (if i < 0 then nat (int len + i) else nat i)"

definition py_slice_from :: "int \<Rightarrow> bytes \<Rightarrow> bytes" where
  "py_slice_from i buf = drop (py_index i (length buf)) buf"

definition py_slice :: "nat \<Rightarrow> int \<Rightarrow> bytes \<Rightarrow> bytes" where
  "py_slice a b buf = take (py_index b (length buf) - a) (drop a buf)"

section \<open>FrameCodec: \<^verbatim>\<open>lsp_send\<close> framing and the \<^verbatim>\<open>read_lsp_messages\<close> loops\<close>

text \<open>
  \<^verbatim>\<open>lsp_send\<close>, lines 74 to 76: the header is \<^verbatim>\<open>f"Content-Length: {len(body)}\r\n\r\n"\<close>
  and the frame is \<^verbatim>\<open>header + body\<close>.
\<close>

definition lsp_header :: "nat \<Rightarrow> bytes" where
  "lsp_header n = ''Content-Length: '' @ show_nat n @ crlf2"

definition lsp_frame :: "bytes \<Rightarrow> bytes" where
  "lsp_frame body = lsp_header (length body) @ body"

text \<open>
  Lines 115 to 119: the \<^verbatim>\<open>for\<close> loop over the header lines.  The first line that starts
  with \<^verbatim>\<open>content-length:\<close> (after lower-casing) decides: \<^verbatim>\<open>line.split(b":", 1)[1]\<close> is
  what follows its first colon, which is the colon of that prefix.  \<open>Inl ValueError\<close>
  is the exception of \<^verbatim>\<open>int\<close>; \<open>Inr None\<close> is \<^verbatim>\<open>content_length is None\<close> after the loop.
\<close>

fun find_content_length :: "bytes list \<Rightarrow> py_error + int option" where
  "find_content_length [] = Inr None"
| "find_content_length (line # lines) =
     (if prefix ''content-length:'' (py_lower line)
      then (case py_int (py_strip (drop 15 line)) of
              None \<Rightarrow> Inl ValueError
            | Some n \<Rightarrow> Inr (Some n))
      else find_content_length lines)"

definition content_length_of :: "bytes \<Rightarrow> py_error + int option" where
  "content_length_of header_bytes = find_content_length (py_split crlf header_bytes)"

text \<open>
  Lines 110 to 133: the inner \<^verbatim>\<open>while True\<close> loop, one decode pass over the buffer.
  The \<^verbatim>\<open>try\<close> block of lines 129 to 133 is the parameter \<open>h\<close>: it takes the body and the
  state, and either returns the new state or raises (\<open>Inl\<close>, with the state reached).
  The pass returns \<open>Inr (s, buf)\<close> when it leaves the loop by \<^verbatim>\<open>break\<close>, \<open>Inl\<close> when an
  exception leaves it, and \<open>None\<close> when it never leaves it.
\<close>

type_synonym 's result = "(py_error \<times> 's) + 's"

partial_function (option) scan_frames ::
  "(bytes \<Rightarrow> 's \<Rightarrow> 's result) \<Rightarrow> 's \<Rightarrow> bytes \<Rightarrow> ('s \<times> bytes) result option" where
  "scan_frames h s buf =
     (case py_find buf crlf2 of
        None \<Rightarrow> Some (Inr (s, buf))
      | Some header_end \<Rightarrow>
          (case content_length_of (take header_end buf) of
             Inl e \<Rightarrow> Some (Inl (e, s, buf))
           | Inr None \<Rightarrow> Some (Inr (s, drop (header_end + 4) buf))
           | Inr (Some content_length) \<Rightarrow>
               (let start = header_end + 4;
                    stop = int start + content_length
                in if int (length buf) < stop then Some (Inr (s, buf))
                   else (case h (py_slice start stop buf) s of
                           Inl (e, s') \<Rightarrow> Some (Inl (e, s', py_slice_from stop buf))
                         | Inr s' \<Rightarrow> scan_frames h s' (py_slice_from stop buf)))))"

text \<open>
  Lines 103 to 136: the outer loop.  The list holds what the successive calls of
  \<^verbatim>\<open>read1\<close> return while the shutdown flag is clear; an empty read is the end of the
  stream (\<^verbatim>\<open>if not chunk: break\<close>), and so is the end of the list.  The result is the
  state when the loop is left by \<^verbatim>\<open>break\<close> (\<open>Inr\<close>), or the exception that left the
  \<^verbatim>\<open>try\<close> body (\<open>Inl\<close>); the buffer is local and is dropped.
\<close>

fun read_chunks ::
  "(bytes \<Rightarrow> 's \<Rightarrow> 's result) \<Rightarrow> 's \<Rightarrow> bytes \<Rightarrow> bytes list \<Rightarrow> 's result option" where
  "read_chunks h s buf [] = Some (Inr s)"
| "read_chunks h s buf (chunk # chunks) =
     (if chunk = [] then Some (Inr s)
      else (case scan_frames h s (buf @ chunk) of
              None \<Rightarrow> None
            | Some (Inl (e, s', buf')) \<Rightarrow> Some (Inl (e, s'))
            | Some (Inr (s', buf')) \<Rightarrow> read_chunks h s' buf' chunks))"

text \<open>
  Lines 129 to 133, the \<^verbatim>\<open>try\<close> block inside the pass.  \<open>loads\<close> stands for
  \<^verbatim>\<open>json.loads(body.decode("utf-8"))\<close>, a function of the standard library: \<open>None\<close> is
  either of the two exceptions the \<^verbatim>\<open>except\<close> clause catches (the frame is then dropped
  and the pass goes on).  Whatever \<open>handler\<close> raises is not caught here.
\<close>

definition decode_and_handle ::
  "(bytes \<Rightarrow> 'j option) \<Rightarrow> ('j \<Rightarrow> 's \<Rightarrow> 's result) \<Rightarrow> bytes \<Rightarrow> 's \<Rightarrow> 's result" where
  "decode_and_handle loads handler body s =
     (case loads body of None \<Rightarrow> Inr s | Some msg \<Rightarrow> handler msg s)"

subsection \<open>What the specification says a decoder does\<close>

text \<open>
  The specification's reading of decoding: the bodies of the frames are handed to the
  handler one by one, in their order, each exactly once, until one of them raises.
\<close>

fun deliver :: "(bytes \<Rightarrow> 's \<Rightarrow> 's result) \<Rightarrow> 's \<Rightarrow> bytes list \<Rightarrow> 's result" where
  "deliver h s [] = Inr s"
| "deliver h s (b # bs) = (case h b s of Inl e \<Rightarrow> Inl e | Inr s' \<Rightarrow> deliver h s' bs)"

text \<open>A valid stream: the frames of a list of bodies, one after the other.\<close>

definition frames :: "bytes list \<Rightarrow> bytes" where
  "frames bodies = concat (map lsp_frame bodies)"

section \<open>JSON values as Python sees them\<close>

text \<open>
  The value \<^verbatim>\<open>json.loads\<close> returns.  An object is the list of its items; a Python
  \<^verbatim>\<open>dict\<close> has each key once, and a lookup takes the first binding.  \<open>JNull\<close> is Python's
  \<^verbatim>\<open>None\<close>, so a missing key and an explicit \<^verbatim>\<open>null\<close> look the same to \<^verbatim>\<open>d.get(k)\<close>.
  Numbers are integers: floating point values are outside the model.
\<close>

datatype json =
    JNull
  | JBool bool
  | JNum int
  | JStr string
  | JArr "json list"
  | JObj "(string \<times> json) list"

type_synonym py_dict = "(string \<times> json) list"

text \<open>\<^verbatim>\<open>d.get(k, default)\<close> and \<^verbatim>\<open>d[k]\<close> (which raises \<^verbatim>\<open>KeyError\<close>).\<close>

definition dict_get :: "py_dict \<Rightarrow> string \<Rightarrow> json \<Rightarrow> json" where
  "dict_get d k dflt = (case map_of d k of None \<Rightarrow> dflt | Some v \<Rightarrow> v)"

definition dict_item :: "py_dict \<Rightarrow> string \<Rightarrow> py_error + json" where
  "dict_item d k = (case map_of d k of None \<Rightarrow> Inl KeyError | Some v \<Rightarrow> Inr v)"

text \<open>The truth value of \<^verbatim>\<open>if v:\<close>.\<close>

fun truthy :: "json \<Rightarrow> bool" where
  "truthy JNull = False"
| "truthy (JBool b) = b"
| "truthy (JNum n) = (n \<noteq> 0)"
| "truthy (JStr s) = (s \<noteq> [])"
| "truthy (JArr xs) = (xs \<noteq> [])"
| "truthy (JObj d) = (d \<noteq> [])"

text \<open>
  \<^verbatim>\<open>v in pending_requests\<close>: the keys of that dictionary are the integers handed out by
  \<^verbatim>\<open>next_lsp_id\<close>.  A list or an object cannot be hashed (\<^verbatim>\<open>TypeError\<close>); a Boolean is equal
  to the integer 0 or 1; a string or \<^verbatim>\<open>None\<close> is equal to no integer (\<open>Inr None\<close>).
\<close>

fun hash_key :: "json \<Rightarrow> py_error + int option" where
  "hash_key (JNum n) = Inr (Some n)"
| "hash_key (JBool b) = Inr (Some (if b then 1 else 0))"
| "hash_key (JStr s) = Inr None"
| "hash_key JNull = Inr None"
| "hash_key (JArr xs) = Inl TypeError"
| "hash_key (JObj d) = Inl TypeError"

text \<open>
  \<^verbatim>\<open>for x in v\<close>: a list gives its elements, a string its characters, an object its
  keys; anything else is not iterable.  \<^verbatim>\<open>len(v)\<close> likewise.
\<close>

fun py_iter :: "json \<Rightarrow> py_error + json list" where
  "py_iter (JArr xs) = Inr xs"
| "py_iter (JStr s) = Inr (map (\<lambda>c. JStr [c]) s)"
| "py_iter (JObj d) = Inr (map JStr (remdups (map fst d)))"
| "py_iter v = Inl TypeError"

fun py_len :: "json \<Rightarrow> py_error + nat" where
  "py_len (JArr xs) = Inr (length xs)"
| "py_len (JStr s) = Inr (length s)"
| "py_len (JObj d) = Inr (length (remdups (map fst d)))"
| "py_len v = Inl TypeError"

text \<open>
  \<^verbatim>\<open>str(v)\<close>, used by \<^verbatim>\<open>str(msg_id)\<close> and by the f-string of the workspace folders.
  Scalars are exact.  For a list or an object Python prints the \<^verbatim>\<open>repr\<close> of the
  elements; the model quotes a nested string with single quotes and leaves Python's
  escaping of quotes and control characters out.
\<close>

definition show_int :: "int \<Rightarrow> string" where
  "show_int n = (if n < 0 then CHR ''-'' # show_nat (nat (- n)) else show_nat (nat n))"

fun join_comma :: "string list \<Rightarrow> string" where
  "join_comma [] = []"
| "join_comma [x] = x"
| "join_comma (x # y # ys) = x @ '', '' @ join_comma (y # ys)"

fun py_repr :: "json \<Rightarrow> string" where
  "py_repr JNull = ''None''"
| "py_repr (JBool b) = (if b then ''True'' else ''False'')"
| "py_repr (JNum n) = show_int n"
| "py_repr (JStr s) = [CHR 0x27] @ s @ [CHR 0x27]"
| "py_repr (JArr xs) = ''['' @ join_comma (map py_repr xs) @ '']''"
| "py_repr (JObj d) =
     ''{'' @ join_comma (map (\<lambda>kv. py_repr (JStr (fst kv)) @ '': '' @ py_repr (snd kv)) d) @ ''}''"

definition py_str :: "json \<Rightarrow> string" where
  "py_str v = (case v of JStr s \<Rightarrow> s | _ \<Rightarrow> py_repr v)"

section \<open>The bridge state\<close>

text \<open>
  The module-level variables of \<^verbatim>\<open>copilot_server.py\<close> and the two channels it writes.
  \<^item> \<open>lsp_process\<close>: \<^verbatim>\<open>lsp_process\<close> is \<^verbatim>\<open>None\<close>, or a process that \<^verbatim>\<open>poll()\<close> reports
    running or exited;
  \<^item> \<open>pending_requests\<close>: the dictionary from an LSP id to \<^verbatim>\<open>(plugin_req_id, method)\<close>;
  \<^item> \<open>request_counter\<close>;
  \<^item> \<open>resp_log\<close>: the objects \<^verbatim>\<open>write_resp\<close> has appended to the file \<^verbatim>\<open>resp\<close>, one line
    each, oldest first;
  \<^item> \<open>lsp_stdin\<close>: the messages \<^verbatim>\<open>lsp_send\<close> has written to the subprocess, oldest
    first; each one goes out as the frame \<open>lsp_frame (dumps message)\<close>;
  \<^item> \<open>own_pid\<close>: what \<^verbatim>\<open>os.getpid()\<close> returns.
  The calls of \<^verbatim>\<open>log\<close> write diagnostics to another file and never raise into their
  caller; they are not part of the state.  The writes themselves are taken to succeed
  (an \<^verbatim>\<open>OSError\<close> of the file system or the pipe is caught and logged by the source).
  The threads of the source are modelled one at a time.
\<close>

datatype proc_state = NoProcess | Running | Exited

record bridge =
  lsp_process :: proc_state
  pending_requests :: "int \<rightharpoonup> (json \<times> string)"
  request_counter :: int
  resp_log :: "json list"
  lsp_stdin :: "json list"
  own_pid :: int

definition write_resp :: "json \<Rightarrow> bridge \<Rightarrow> bridge" where
  "write_resp data st = st\<lparr>resp_log := resp_log st @ [data]\<rparr>"

definition lsp_send :: "json \<Rightarrow> bridge \<Rightarrow> bridge" where
  "lsp_send message st =
     (if lsp_process st \<noteq> Running then st
      else st\<lparr>lsp_stdin := lsp_stdin st @ [message]\<rparr>)"

text \<open>The bytes on the pipe and the text of the response file, for a given \<^verbatim>\<open>json.dumps\<close>.\<close>

definition stdin_bytes :: "(json \<Rightarrow> bytes) \<Rightarrow> bridge \<Rightarrow> bytes" where
  "stdin_bytes dumps st = concat (map (\<lambda>m. lsp_frame (dumps m)) (lsp_stdin st))"

definition resp_text :: "(json \<Rightarrow> string) \<Rightarrow> bridge \<Rightarrow> string" where
  "resp_text dumps st = concat (map (\<lambda>e. dumps e @ [LF]) (resp_log st))"

definition next_lsp_id :: "bridge \<Rightarrow> int \<times> bridge" where
  "next_lsp_id st =
     (request_counter st + 1, st\<lparr>request_counter := request_counter st + 1\<rparr>)"

text \<open>\<^verbatim>\<open>lsp_request\<close>; no caller uses the id it returns, so the model returns the state.\<close>

definition lsp_request :: "string \<Rightarrow> json \<Rightarrow> json \<Rightarrow> bridge \<Rightarrow> bridge" where
  "lsp_request method params plugin_req_id st =
     (let (lsp_id, st1) = next_lsp_id st;
          st2 = (if plugin_req_id \<noteq> JNull
                 then st1\<lparr>pending_requests := (pending_requests st1)(lsp_id \<mapsto> (plugin_req_id, method))\<rparr>
                 else st1)
      in lsp_send (JObj [(''jsonrpc'', JStr ''2.0''), (''id'', JNum lsp_id),
                         (''method'', JStr method), (''params'', params)]) st2)"

definition lsp_notify :: "string \<Rightarrow> json \<Rightarrow> bridge \<Rightarrow> bridge" where
  "lsp_notify method params st =
     lsp_send (JObj [(''jsonrpc'', JStr ''2.0''), (''method'', JStr method), (''params'', params)]) st"

section \<open>MessageRouter: \<^verbatim>\<open>dispatch_lsp_response\<close> and \<^verbatim>\<open>handle_lsp_message\<close>\<close>

text \<open>
  Lines 213 to 220: the loop that builds \<^verbatim>\<open>items\<close>.  \<^verbatim>\<open>item.get\<close> raises
  \<^verbatim>\<open>AttributeError\<close> on an item that is not an object; iterating something that is not
  iterable raises \<^verbatim>\<open>TypeError\<close>.
\<close>

definition normalize_item :: "py_dict \<Rightarrow> json" where
  "normalize_item item =
     JObj [(''insertText'', dict_get item ''insertText'' (JStr [])),
           (''range'', dict_get item ''range'' JNull),
           (''command'', dict_get item ''command'' JNull)]"

fun normalize_items :: "json list \<Rightarrow> py_error + json list" where
  "normalize_items [] = Inr []"
| "normalize_items (JObj item # rest) =
     (case normalize_items rest of
        Inl e \<Rightarrow> Inl e
      | Inr items \<Rightarrow> Inr (normalize_item item # items))"
| "normalize_items (v # rest) = Inl AttributeError"

definition completion_items :: "json \<Rightarrow> py_error + json list" where
  "completion_items result =
     (case result of
        JObj r \<Rightarrow>
          if r \<noteq> [] then
            (case py_iter (dict_get r ''items'' (JArr [])) of
               Inl e \<Rightarrow> Inl e
             | Inr its \<Rightarrow> normalize_items its)
          else Inr []
      | _ \<Rightarrow> Inr [])"

definition dispatch_lsp_response :: "string \<Rightarrow> json \<Rightarrow> json \<Rightarrow> bridge \<Rightarrow> bridge result" where
  "dispatch_lsp_response method plugin_req_id result st =
     (if method = ''initialize'' then
        Inr (write_resp (JObj [(''type'', JStr ''initialized''), (''id'', plugin_req_id)])
              (lsp_notify ''initialized'' (JObj []) st))
      else if method = ''textDocument/inlineCompletion'' then
        (case completion_items result of
           Inl e \<Rightarrow> Inl (e, st)
         | Inr items \<Rightarrow>
             Inr (write_resp (JObj [(''type'', JStr ''completionResult''), (''id'', plugin_req_id),
                                    (''items'', JArr items)]) st))
      else if method = ''signIn'' then
        (if truthy result then
           (case result of
              JObj r \<Rightarrow>
                Inr (write_resp (JObj [(''type'', JStr ''signInResult''), (''id'', plugin_req_id),
                                       (''userCode'', dict_get r ''userCode'' (JStr [])),
                                       (''verificationUri'', dict_get r ''verificationUri'' (JStr [])),
                                       (''command'', dict_get r ''command'' JNull)]) st)
            | _ \<Rightarrow> Inl (AttributeError, st))
         else
           Inr (write_resp (JObj [(''type'', JStr ''signInResult''), (''id'', plugin_req_id),
                                  (''userCode'', JStr []), (''verificationUri'', JStr [])]) st))
      else if method = ''signOut'' then
        Inr (write_resp (JObj [(''type'', JStr ''signOutResult''), (''id'', plugin_req_id)]) st)
      else if method = ''workspace/executeCommand'' then
        Inr (write_resp (JObj [(''type'', JStr ''commandResult''), (''id'', plugin_req_id),
                               (''result'', result)]) st)
      else
        Inr (write_resp (JObj [(''type'', JStr ''lspResponse''), (''id'', plugin_req_id),
                               (''method'', JStr method), (''result'', result)]) st))"

text \<open>
  \<^verbatim>\<open>handle_lsp_message\<close>, lines 142 to 203, branch by branch in the order of the source.
  \<^verbatim>\<open>msg.get\<close> raises \<^verbatim>\<open>AttributeError\<close> when the decoded value is not an object, and so
  does \<^verbatim>\<open>params.get\<close> when \<^verbatim>\<open>params\<close> is not one; both happen before anything is
  written.
\<close>

definition method_not_found :: json where
  "method_not_found = JObj [(''code'', JNum (- 32601)), (''message'', JStr ''Method not found'')]"

definition handle_lsp_message :: "json \<Rightarrow> bridge \<Rightarrow> bridge result" where
  "handle_lsp_message msg st =
     (case msg of
        JObj m \<Rightarrow>
          (let msg_id = dict_get m ''id'' JNull;
               method = dict_get m ''method'' JNull
           in
           if msg_id \<noteq> JNull \<and> method = JNull then
             (case hash_key msg_id of
                Inl e \<Rightarrow> Inl (e, st)
              | Inr None \<Rightarrow> Inr st
              | Inr (Some k) \<Rightarrow>
                  (case pending_requests st k of
                     None \<Rightarrow> Inr st
                   | Some (plugin_req_id, req_method) \<Rightarrow>
                       (let st1 = st\<lparr>pending_requests := (pending_requests st)(k := None)\<rparr>;
                            result = dict_get m ''result'' JNull;
                            error = dict_get m ''error'' JNull
                        in if truthy error
                           then Inr (write_resp (JObj [(''type'', JStr ''error''),
                                                       (''id'', plugin_req_id),
                                                       (''error'', error)]) st1)
                           else dispatch_lsp_response req_method plugin_req_id result st1)))
           else if method = JStr ''$/logTrace'' \<or> method = JStr ''$/progress'' then Inr st
           else if method = JStr ''window/logMessage'' then
             (case dict_get m ''params'' (JObj []) of
                JObj params \<Rightarrow> Inr st
              | _ \<Rightarrow> Inl (AttributeError, st))
           else if method = JStr ''window/showMessage'' then
             (case dict_get m ''params'' (JObj []) of
                JObj params \<Rightarrow>
                  Inr (write_resp (JObj [(''type'', JStr ''showMessage''),
                                         (''message'', dict_get params ''message'' (JStr [])),
                                         (''msgType'', dict_get params ''type'' (JNum 3))]) st)
              | _ \<Rightarrow> Inl (AttributeError, st))
           else if method = JStr ''window/showMessageRequest'' then
             (case dict_get m ''params'' (JObj []) of
                JObj params \<Rightarrow>
                  Inr (lsp_send (JObj [(''jsonrpc'', JStr ''2.0''), (''id'', msg_id),
                                       (''result'', JNull)])
                        (write_resp (JObj [(''type'', JStr ''showMessageRequest''),
                                           (''id'', JStr (py_str msg_id)),
                                           (''message'', dict_get params ''message'' (JStr [])),
                                           (''msgType'', dict_get params ''type'' (JNum 3)),
                                           (''actions'', dict_get params ''actions'' (JArr []))]) st))
              | _ \<Rightarrow> Inl (AttributeError, st))
           else if method = JStr ''window/showDocument'' then
             (case dict_get m ''params'' (JObj []) of
                JObj params \<Rightarrow>
                  Inr (lsp_send (JObj [(''jsonrpc'', JStr ''2.0''), (''id'', msg_id),
                                       (''result'', JObj [(''success'', JBool True)])])
                        (write_resp (JObj [(''type'', JStr ''showDocument''),
                                           (''uri'', dict_get params ''uri'' (JStr []))]) st))
              | _ \<Rightarrow> Inl (AttributeError, st))
           else if method = JStr ''workspace/configuration'' then
             (case dict_get m ''params'' (JObj []) of
                JObj params \<Rightarrow>
                  (case py_len (dict_get params ''items'' (JArr [])) of
                     Inl e \<Rightarrow> Inl (e, st)
                   | Inr n \<Rightarrow>
                       Inr (lsp_send (JObj [(''jsonrpc'', JStr ''2.0''), (''id'', msg_id),
                                            (''result'', JArr (replicate n JNull))]) st))
              | _ \<Rightarrow> Inl (AttributeError, st))
           else if method = JStr ''copilot/didChangeStatus'' \<or> method = JStr ''didChangeStatus''
                   \<or> method = JStr ''statusNotification'' then
             (case dict_get m ''params'' (JObj []) of
                JObj params \<Rightarrow>
                  Inr (write_resp (JObj [(''type'', JStr ''statusChanged''),
                                         (''message'', dict_get params ''message'' (JStr [])),
                                         (''kind'', dict_get params ''kind'' (JStr ''Normal''))]) st)
              | _ \<Rightarrow> Inl (AttributeError, st))
           else if msg_id \<noteq> JNull then
             Inr (lsp_send (JObj [(''jsonrpc'', JStr ''2.0''), (''id'', msg_id),
                                  (''error'', method_not_found)]) st)
           else Inr st)
      | _ \<Rightarrow> Inl (AttributeError, st))"

text \<open>
  \<^verbatim>\<open>read_lsp_messages\<close> as a whole.  It returns at once when there is no process.  An
  \<^verbatim>\<open>OSError\<close> or a \<^verbatim>\<open>ValueError\<close> is caught by line 134 and ends the loop like the end
  of the stream; any other exception ends the thread before \<^verbatim>\<open>serverStopped\<close> is
  written.
\<close>

definition server_stopped :: json where
  "server_stopped = JObj [(''type'', JStr ''serverStopped'')]"

definition read_lsp_messages ::
  "(bytes \<Rightarrow> json option) \<Rightarrow> bytes list \<Rightarrow> bridge \<Rightarrow> bridge result option" where
  "read_lsp_messages loads chunks st =
     (if lsp_process st = NoProcess then Some (Inr st)
      else (case read_chunks (decode_and_handle loads handle_lsp_message) st [] chunks of
              None \<Rightarrow> None
            | Some (Inr st') \<Rightarrow> Some (Inr (write_resp server_stopped st'))
            | Some (Inl (e, st')) \<Rightarrow>
                if e = OSError \<or> e = ValueError
                then Some (Inr (write_resp server_stopped st'))
                else Some (Inl (e, st'))))"

section \<open>IPCChannel: \<^verbatim>\<open>handle_plugin_message\<close> and \<^verbatim>\<open>cmd_file_watcher\<close>\<close>

text \<open>The parameters of the \<^verbatim>\<open>initialize\<close> request, lines 255 to 277.\<close>

definition fresh_info :: "string \<Rightarrow> json" where
  "fresh_info name = JObj [(''name'', JStr name), (''version'', JStr ''1.0.0'')]"

definition dynamic_registration :: json where
  "dynamic_registration = JObj [(''dynamicRegistration'', JBool True)]"

definition initialize_params :: "int \<Rightarrow> json list \<Rightarrow> json" where
  "initialize_params process_id workspace =
     JObj [(''processId'', JNum process_id),
           (''clientInfo'', fresh_info ''Fresh''),
           (''workspaceFolders'',
              JArr (map (\<lambda>w. JObj [(''uri'', JStr (''file://'' @ py_str w))]) workspace)),
           (''capabilities'',
              JObj [(''workspace'',
                       JObj [(''workspaceFolders'', JBool True), (''configuration'', JBool True)]),
                    (''textDocument'',
                       JObj [(''synchronization'',
                                JObj [(''dynamicRegistration'', JBool True), (''didSave'', JBool True)]),
                             (''inlineCompletion'', dynamic_registration),
                             (''inlayHint'', dynamic_registration)])]),
           (''initializationOptions'',
              JObj [(''editorInfo'', fresh_info ''Fresh''),
                    (''editorPluginInfo'', fresh_info ''GitHub Copilot for Fresh'')])]"

text \<open>
  \<^verbatim>\<open>handle_plugin_message\<close>, lines 248 to 353.  \<^verbatim>\<open>msg["uri"]\<close> and its like raise
  \<^verbatim>\<open>KeyError\<close>; \<^verbatim>\<open>msg.get\<close> raises \<^verbatim>\<open>AttributeError\<close> on a command that is not an object.
  Every exception comes while the arguments are built, before anything is sent.
\<close>

definition handle_plugin_message :: "json \<Rightarrow> bridge \<Rightarrow> bridge result" where
  "handle_plugin_message msg st =
     (case msg of
        JObj m \<Rightarrow>
          (let msg_type = dict_get m ''type'' JNull;
               req_id = dict_get m ''id'' JNull
           in
           if msg_type = JStr ''initialize'' then
             (case py_iter (dict_get m ''workspaceFolders'' (JArr [])) of
                Inl e \<Rightarrow> Inl (e, st)
              | Inr workspace \<Rightarrow>
                  Inr (lsp_request ''initialize'' (initialize_params (own_pid st) workspace) req_id st))
           else if msg_type = JStr ''configuration'' then
             Inr (lsp_notify ''workspace/didChangeConfiguration''
                    (JObj [(''settings'', dict_get m ''settings'' (JObj []))]) st)
           else if msg_type = JStr ''openDocument'' then
             (case dict_item m ''uri'' of
                Inl e \<Rightarrow> Inl (e, st)
              | Inr uri \<Rightarrow>
                  Inr (lsp_notify ''textDocument/didOpen''
                         (JObj [(''textDocument'',
                                   JObj [(''uri'', uri),
                                         (''languageId'', dict_get m ''languageId'' (JStr ''plaintext'')),
                                         (''version'', dict_get m ''version'' (JNum 1)),
                                         (''text'', dict_get m ''text'' (JStr []))])]) st))
           else if msg_type = JStr ''changeDocument'' then
             (case dict_item m ''uri'' of
                Inl e \<Rightarrow> Inl (e, st)
              | Inr uri \<Rightarrow>
                  Inr (lsp_notify ''textDocument/didChange''
                         (JObj [(''textDocument'',
                                   JObj [(''uri'', uri), (''version'', dict_get m ''version'' (JNum 1))]),
                                (''contentChanges'', dict_get m ''changes'' (JArr []))]) st))
           else if msg_type = JStr ''closeDocument'' then
             (case dict_item m ''uri'' of
                Inl e \<Rightarrow> Inl (e, st)
              | Inr uri \<Rightarrow>
                  Inr (lsp_notify ''textDocument/didClose''
                         (JObj [(''textDocument'', JObj [(''uri'', uri)])]) st))
           else if msg_type = JStr ''focusDocument'' then
             (let uri = dict_get m ''uri'' JNull
              in if truthy uri
                 then Inr (lsp_notify ''textDocument/didFocus''
                             (JObj [(''textDocument'', JObj [(''uri'', uri)])]) st)
                 else Inr (lsp_notify ''textDocument/didFocus'' (JObj []) st))
           else if msg_type = JStr ''inlineCompletion'' then
             (case dict_item m ''uri'' of
                Inl e \<Rightarrow> Inl (e, st)
              | Inr uri \<Rightarrow>
                  (case dict_item m ''position'' of
                     Inl e \<Rightarrow> Inl (e, st)
                   | Inr position \<Rightarrow>
                       Inr (lsp_request ''textDocument/inlineCompletion''
                              (JObj [(''textDocument'',
                                        JObj [(''uri'', uri), (''version'', dict_get m ''version'' (JNum 0))]),
                                     (''position'', position),
                                     (''context'',
                                        JObj [(''triggerKind'', dict_get m ''triggerKind'' (JNum 2))]),
                                     (''formattingOptions'',
                                        dict_get m ''formattingOptions''
                                          (JObj [(''tabSize'', JNum 4), (''insertSpaces'', JBool True)]))])
                              req_id st)))
           else if msg_type = JStr ''signIn'' then
             Inr (lsp_request ''signIn'' (JObj []) req_id st)
           else if msg_type = JStr ''signOut'' then
             Inr (lsp_request ''signOut'' (JObj []) req_id st)
           else if msg_type = JStr ''executeCommand'' then
             (case dict_item m ''command'' of
                Inl e \<Rightarrow> Inl (e, st)
              | Inr command \<Rightarrow>
                  Inr (lsp_request ''workspace/executeCommand''
                         (JObj [(''command'', command),
                                (''arguments'', dict_get m ''arguments'' (JArr []))])
                         req_id st))
           else if msg_type = JStr ''didAcceptCompletion'' then
             (let cmd = dict_get m ''command'' JNull
              in if truthy cmd then
                   (case cmd of
                      JObj c \<Rightarrow>
                        Inr (lsp_notify ''workspace/executeCommand''
                               (JObj [(''command'', dict_get c ''command'' JNull),
                                      (''arguments'', dict_get c ''arguments'' (JArr []))]) st)
                    | _ \<Rightarrow> Inl (AttributeError, st))
                 else Inr st)
           else if msg_type = JStr ''didShowCompletion'' then
             Inr (lsp_notify ''textDocument/didShowCompletion''
                    (JObj [(''item'', dict_get m ''item'' (JObj []))]) st)
           else Inr st)
      | _ \<Rightarrow> Inl (AttributeError, st))"

text \<open>
  The command file is opened in text mode (line 365), which is taken to decode UTF-8.
  A text is modelled by its UTF-8 bytes.  \<^verbatim>\<open>f.read()\<close> raises \<^verbatim>\<open>UnicodeDecodeError\<close> when
  the bytes from the offset to the end of the file are not well-formed UTF-8 (a stray or
  truncated sequence, an overlong form, a surrogate, a code point beyond \<open>U+10FFFF\<close>),
  and it turns each \<^verbatim>\<open>\r\n\<close> and each lone \<^verbatim>\<open>\r\<close> into \<^verbatim>\<open>\n\<close>.
\<close>

definition in_range :: "nat \<Rightarrow> nat \<Rightarrow> char \<Rightarrow> bool" where
  "in_range lo hi c = (lo \<le> (of_char c :: nat) \<and> (of_char c :: nat) \<le> hi)"

text \<open>The length of the well-formed sequence a byte string starts with, zero for none.\<close>

definition utf8_char_len :: "bytes \<Rightarrow> nat" where
  "utf8_char_len s =
     (case s of
        [] \<Rightarrow> 0
      | b # bs \<Rightarrow>
          if in_range 0x00 0x7F b then 1
          else if in_range 0xC2 0xDF b then
            (case bs of
               c1 # r \<Rightarrow> if in_range 0x80 0xBF c1 then 2 else 0
             | _ \<Rightarrow> 0)
          else if in_range 0xE0 0xEF b then
            (case bs of
               c1 # c2 # r \<Rightarrow>
                 if in_range (if b = CHR 0xE0 then 0xA0 else 0x80)
                             (if b = CHR 0xED then 0x9F else 0xBF) c1
                    \<and> in_range 0x80 0xBF c2
                 then 3 else 0
             | _ \<Rightarrow> 0)
          else if in_range 0xF0 0xF4 b then
            (case bs of
               c1 # c2 # c3 # r \<Rightarrow>
                 if in_range (if b = CHR 0xF0 then 0x90 else 0x80)
                             (if b = CHR 0xF4 then 0x8F else 0xBF) c1
                    \<and> in_range 0x80 0xBF c2 \<and> in_range 0x80 0xBF c3
                 then 4 else 0
             | _ \<Rightarrow> 0)
          else 0)"

function utf8_valid :: "bytes \<Rightarrow> bool" where
  "utf8_valid s =
     (if s = [] then True
      else if utf8_char_len s = 0 then False
      else utf8_valid (drop (utf8_char_len s) s))"
  by pat_completeness auto
termination
  by (relation "measure length") auto

fun universal_newlines :: "string \<Rightarrow> string" where
  "universal_newlines [] = []"
| "universal_newlines [c] = [if c = CR then LF else c]"
| "universal_newlines (c # d # cs) =
     (if c = CR \<and> d = LF then LF # universal_newlines cs
      else if c = CR then LF # universal_newlines (d # cs)
      else c # universal_newlines (d # cs))"

text \<open>
  \<^verbatim>\<open>str.strip()\<close> removes the characters for which \<^verbatim>\<open>str.isspace()\<close> holds, at both ends:
  \<open>U+0009\<close> to \<open>U+000D\<close>, \<open>U+001C\<close> to \<open>U+0020\<close>, \<open>U+0085\<close>, \<open>U+00A0\<close>, \<open>U+1680\<close>, \<open>U+2000\<close>
  to \<open>U+200A\<close>, \<open>U+2028\<close>, \<open>U+2029\<close>, \<open>U+202F\<close>, \<open>U+205F\<close> and \<open>U+3000\<close>.  \<open>is_text_space\<close>
  holds of the UTF-8 bytes of one such character.
\<close>

definition is_text_space :: "string \<Rightarrow> bool" where
  "is_text_space w =
     (case w of
        [a] \<Rightarrow> in_range 0x09 0x0D a \<or> in_range 0x1C 0x20 a
      | [a, b] \<Rightarrow> a = CHR 0xC2 \<and> (b = CHR 0x85 \<or> b = CHR 0xA0)
      | [a, b, c] \<Rightarrow>
          (a = CHR 0xE1 \<and> b = CHR 0x9A \<and> c = CHR 0x80)
          \<or> (a = CHR 0xE2 \<and> b = CHR 0x80
               \<and> (in_range 0x80 0x8A c \<or> c = CHR 0xA8 \<or> c = CHR 0xA9 \<or> c = CHR 0xAF))
          \<or> (a = CHR 0xE2 \<and> b = CHR 0x81 \<and> c = CHR 0x9F)
          \<or> (a = CHR 0xE3 \<and> b = CHR 0x80 \<and> c = CHR 0x80)
      | _ \<Rightarrow> False)"

definition space_prefix_len :: "string \<Rightarrow> nat" where
  "space_prefix_len s =
     (if 1 \<le> length s \<and> is_text_space (take 1 s) then 1
      else if 2 \<le> length s \<and> is_text_space (take 2 s) then 2
      else if 3 \<le> length s \<and> is_text_space (take 3 s) then 3
      else 0)"

definition space_suffix_len :: "string \<Rightarrow> nat" where
  "space_suffix_len s =
     (if 1 \<le> length s \<and> is_text_space (drop (length s - 1) s) then 1
      else if 2 \<le> length s \<and> is_text_space (drop (length s - 2) s) then 2
      else if 3 \<le> length s \<and> is_text_space (drop (length s - 3) s) then 3
      else 0)"

function text_lstrip :: "string \<Rightarrow> string" where
  "text_lstrip s =
     (if space_prefix_len s = 0 then s else text_lstrip (drop (space_prefix_len s) s))"
  by pat_completeness auto
termination
  by (relation "measure length") (auto simp: space_prefix_len_def split: if_splits)

function text_rstrip :: "string \<Rightarrow> string" where
  "text_rstrip s =
     (if space_suffix_len s = 0 then s else text_rstrip (take (length s - space_suffix_len s) s))"
  by pat_completeness auto
termination
  by (relation "measure length") (auto simp: space_suffix_len_def split: if_splits)

definition text_strip :: "string \<Rightarrow> string" where
  "text_strip s = text_rstrip (text_lstrip s)"

text \<open>
  Lines 380 to 384: one line of the command file.  \<open>loads\<close> stands for \<^verbatim>\<open>json.loads\<close>,
  \<open>None\<close> for its \<^verbatim>\<open>JSONDecodeError\<close>.  The \<^verbatim>\<open>except\<close> clause catches that and \<^verbatim>\<open>KeyError\<close>
  and nothing else.
\<close>

definition dispatch_line :: "(string \<Rightarrow> json option) \<Rightarrow> string \<Rightarrow> bridge \<Rightarrow> bridge result" where
  "dispatch_line loads line st =
     (if text_strip line = [] then Inr st
      else (case loads line of
              None \<Rightarrow> Inr st
            | Some msg \<Rightarrow>
                (case handle_plugin_message msg st of
                   Inl (e, st') \<Rightarrow> if e = KeyError then Inr st' else Inl (e, st')
                 | Inr st' \<Rightarrow> Inr st')))"

fun dispatch_lines :: "(string \<Rightarrow> json option) \<Rightarrow> string list \<Rightarrow> bridge \<Rightarrow> bridge result" where
  "dispatch_lines loads [] st = Inr st"
| "dispatch_lines loads (line # lines) st =
     (case dispatch_line loads line st of
        Inl x \<Rightarrow> Inl x
      | Inr st' \<Rightarrow> dispatch_lines loads lines st')"

text \<open>
  Lines 361 to 386: one iteration of the watcher loop.  \<open>content\<close> is the bytes of the
  command file when it is opened (\<open>None\<close>: it does not exist, or opening or reading it
  raises \<^verbatim>\<open>OSError\<close>, and the loop goes on to the next iteration); \<open>file_size\<close> is what
  \<^verbatim>\<open>os.path.getsize\<close> returns at line 372 (\<open>None\<close>: it raises \<^verbatim>\<open>OSError\<close>).  Offsets count
  bytes.  After \<^verbatim>\<open>f.seek(last_pos)\<close> and \<^verbatim>\<open>f.read()\<close>, \<^verbatim>\<open>f.tell()\<close> is the end of the file,
  or \<open>last_pos\<close> when that lies beyond the end.  The \<^verbatim>\<open>UnicodeDecodeError\<close> of \<^verbatim>\<open>f.read()\<close>
  comes before \<open>last_pos\<close> is assigned.  It and an exception that \<open>dispatch_line\<close> lets
  through are not an \<^verbatim>\<open>OSError\<close>: they leave the loop (\<open>Inl\<close>).
\<close>

definition cmd_poll ::
  "(string \<Rightarrow> json option) \<Rightarrow> bytes option \<Rightarrow> nat option \<Rightarrow> nat \<times> bridge \<Rightarrow> (nat \<times> bridge) result" where
  "cmd_poll loads content file_size ps =
     (case ps of (last_pos, st) \<Rightarrow>
       (case content of
          None \<Rightarrow> Inr (last_pos, st)
        | Some txt \<Rightarrow>
            if \<not> utf8_valid (drop last_pos txt) then Inl (ValueError, (last_pos, st))
            else
              (let new_data = universal_newlines (drop last_pos txt);
                   pos = max last_pos (length txt)
               in if new_data = [] then
                    (case file_size of
                       None \<Rightarrow> Inr (pos, st)
                     | Some n \<Rightarrow> if n < pos then Inr (0, st) else Inr (pos, st))
                  else
                    (case dispatch_lines loads (py_split [LF] (text_strip new_data)) st of
                       Inl (e, st') \<Rightarrow> Inl (e, (pos, st'))
                     | Inr st' \<Rightarrow> Inr (pos, st')))))"

text \<open>
  The loop: one observation of the file per iteration, made while the shutdown flag is
  clear; \<open>last_pos\<close> starts at zero.
\<close>

fun watch_polls ::
  "(string \<Rightarrow> json option) \<Rightarrow> (bytes option \<times> nat option) list \<Rightarrow> nat \<times> bridge \<Rightarrow> (nat \<times> bridge) result" where
  "watch_polls loads [] ps = Inr ps"
| "watch_polls loads ((content, file_size) # polls) ps =
     (case cmd_poll loads content file_size ps of
        Inl x \<Rightarrow> Inl x
      | Inr ps' \<Rightarrow> watch_polls loads polls ps')"

definition cmd_file_watcher ::
  "(string \<Rightarrow> json option) \<Rightarrow> (bytes option \<times> nat option) list \<Rightarrow> bridge \<Rightarrow> (nat \<times> bridge) result" where
  "cmd_file_watcher loads polls st = watch_polls loads polls (0, st)"

section \<open>Notions used in the proofs\<close>

text \<open>
  The value of a run of decimal digits, the header line without its blank line, the
  state a result ends in, and the invariant of the reader loop: between two reads the
  buffer is a proper prefix of the frame that comes next (empty at the end of the
  stream).
\<close>

definition dec_value :: "nat \<Rightarrow> bytes \<Rightarrow> nat" where
  "dec_value acc xs = foldl (\<lambda>a c. 10 * a + digit_val c) acc xs"

definition header_line :: "nat \<Rightarrow> bytes" where
  "header_line n = ''Content-Length: '' @ show_nat n"

definition awaiting :: "bytes \<Rightarrow> bytes list \<Rightarrow> bool" where
  "awaiting p bs = (case bs of [] \<Rightarrow> p = [] | b # _ \<Rightarrow> strict_prefix p (lsp_frame b))"

definition state_of :: "'s result \<Rightarrow> 's" where
  "state_of r = (case r of Inl (e, s) \<Rightarrow> s | Inr s \<Rightarrow> s)"

text \<open>
  For the router: the methods \<^verbatim>\<open>handle_lsp_message\<close> has a branch for, and two states
  to run examples in: a running bridge with nothing outstanding, and one with a single
  outstanding request.
\<close>

definition handled_methods :: "string list" where
  "handled_methods =
     [''$/logTrace'', ''$/progress'', ''window/logMessage'', ''window/showMessage'',
      ''window/showMessageRequest'', ''window/showDocument'', ''workspace/configuration'',
      ''copilot/didChangeStatus'', ''didChangeStatus'', ''statusNotification'']"

definition running_bridge :: bridge where
  "running_bridge =
     \<lparr>lsp_process = Running, pending_requests = Map.empty, request_counter = 0,
      resp_log = [], lsp_stdin = [], own_pid = 4242\<rparr>"

definition bridge_awaiting :: "int \<Rightarrow> json \<Rightarrow> string \<Rightarrow> bridge" where
  "bridge_awaiting k rid meth =
     running_bridge\<lparr>pending_requests := [k \<mapsto> (rid, meth)], request_counter := k\<rparr>"



text \<open>
  For the watcher: an iteration observes a truncation when it reads nothing new, asks
  for the size of the file (line 372) and gets less than its offset.
\<close>

definition observes_truncation :: "string option \<Rightarrow> nat option \<Rightarrow> nat \<Rightarrow> bool" where
  "observes_truncation content file_size last_pos =
     (case content of
        None \<Rightarrow> False
      | Some txt \<Rightarrow>
          (case file_size of
             None \<Rightarrow> False
           | Some n \<Rightarrow> drop last_pos txt = [] \<and> n < last_pos))"

text \<open>
  For examples of the watcher: the line \<^verbatim>\<open>{"type": "t"}\<close> of a command of type \<open>t\<close>, and a
  parser that reads the \<^verbatim>\<open>signOut\<close> and the \<^verbatim>\<open>signIn\<close> line as \<^verbatim>\<open>json.loads\<close> does.
\<close>

definition quoted :: "string \<Rightarrow> string" where
  "quoted s = [CHR 0x22] @ s @ [CHR 0x22]"

definition command_line :: "string \<Rightarrow> string" where
  "command_line t = ''{'' @ quoted ''type'' @ '': '' @ quoted t @ ''}''"

definition command_parser :: "string \<Rightarrow> json option" where
  "command_parser s =
     (if s = command_line ''signOut'' then Some (JObj [(''type'', JStr ''signOut'')])
      else if s = command_line ''signIn'' then Some (JObj [(''type'', JStr ''signIn'')])
      else None)"

section \<open>The frame codec on valid streams\<close>

declare show_nat.simps [simp del]

declare utf8_valid.simps [simp del]

declare text_lstrip.simps [simp del]

declare text_rstrip.simps [simp del]

lemma digit_char_props: "d < 10 \<Longrightarrow> is_digit (digit_char d) \<and> digit_val (digit_char d) = d"
  by (simp add: is_digit_def digit_val_def digit_char_def of_char_of)

lemma is_digit_not_CR: "is_digit c \<Longrightarrow> c \<noteq> CR"
  by (auto simp: is_digit_def CR_def)

lemma is_digit_not_space: "is_digit c \<Longrightarrow> \<not> is_space c"
  by (auto simp: is_digit_def is_space_def)

lemma is_digit_not_sign: "is_digit c \<Longrightarrow> c \<noteq> CHR ''-'' \<and> c \<noteq> CHR ''+''"
  by (auto simp: is_digit_def)

lemma show_nat_digits: "\<forall>c \<in> set (show_nat n). is_digit c"
proof (induction n rule: show_nat.induct)
  case (1 n)
  show ?case
  proof (cases "n < 10")
    case True
    then show ?thesis by (subst show_nat.simps) (simp add: digit_char_props)
  next
    case False
    with 1 show ?thesis by (subst show_nat.simps) (simp add: digit_char_props)
  qed
qed

lemma show_nat_nonempty: "show_nat n \<noteq> []"
  by (subst show_nat.simps) simp

lemma py_digits_append:
  "\<forall>c \<in> set xs. is_digit c \<Longrightarrow> py_digits acc (xs @ ys) = py_digits (dec_value acc xs) ys"
  by (induction xs arbitrary: acc) (simp_all add: dec_value_def)

lemma dec_value_show_nat: "dec_value 0 (show_nat n) = n"
proof (induction n rule: show_nat.induct)
  case (1 n)
  show ?case
  proof (cases "n < 10")
    case True
    then show ?thesis by (subst show_nat.simps) (simp add: dec_value_def digit_char_props)
  next
    case False
    with 1 show ?thesis by (subst show_nat.simps) (simp add: dec_value_def digit_char_props)
  qed
qed

lemma py_nat_digits: "s \<noteq> [] \<Longrightarrow> \<forall>c \<in> set s. is_digit c \<Longrightarrow> py_nat s = Some (dec_value 0 s)"
proof -
  assume ne: "s \<noteq> []" and dg: "\<forall>c \<in> set s. is_digit c"
  from ne obtain c cs where s: "s = c # cs" by (cases s) auto
  with dg have "py_nat s = py_digits 0 (s @ [])" by (simp add: py_nat_def)
  also have "\<dots> = py_digits (dec_value 0 s) []" using dg by (rule py_digits_append)
  finally show ?thesis by simp
qed

lemma py_nat_show_nat: "py_nat (show_nat n) = Some n"
  by (simp add: py_nat_digits show_nat_nonempty show_nat_digits dec_value_show_nat)

lemma dropWhile_hd: "xs \<noteq> [] \<Longrightarrow> \<not> P (hd xs) \<Longrightarrow> dropWhile P xs = xs"
  by (cases xs) auto

lemma py_strip_id: "s \<noteq> [] \<Longrightarrow> \<not> is_space (hd s) \<Longrightarrow> \<not> is_space (last s) \<Longrightarrow> py_strip s = s"
  by (simp add: py_strip_def dropWhile_hd hd_rev)

lemma py_strip_show_nat: "py_strip (show_nat n) = show_nat n"
  using show_nat_nonempty[of n] show_nat_digits[of n]
  by (intro py_strip_id) (auto simp: is_digit_not_space)

lemma py_int_show_nat: "py_int (show_nat n) = Some (int n)"
proof -
  obtain c cs where s: "show_nat n = c # cs" using show_nat_nonempty[of n] by (cases "show_nat n") auto
  have "is_digit c" using show_nat_digits[of n] s by simp
  moreover have "py_strip (c # cs) = c # cs" using py_strip_show_nat[of n] s by simp
  ultimately show ?thesis using py_nat_show_nat[of n] s
    by (simp add: py_int_def is_digit_not_sign)
qed

lemma lsp_header_line: "lsp_header n = header_line n @ crlf2"
  by (simp add: lsp_header_def header_line_def)

lemma header_line_no_CR: "CR \<notin> set (header_line n)"
  using show_nat_digits[of n] by (auto simp: header_line_def CR_def dest: is_digit_not_CR[unfolded CR_def])

lemma py_find_no_CR:
  "CR \<notin> set xs \<Longrightarrow>
   py_find (xs @ t) crlf2 = (case py_find t crlf2 of None \<Rightarrow> None | Some i \<Rightarrow> Some (length xs + i))"
  by (induction xs) (auto simp: crlf2_def split: option.splits)

lemma scan_step:
  assumes "py_find buf crlf2 = Some he"
    and "content_length_of (take he buf) = Inr (Some cl)"
    and "\<not> int (length buf) < int (he + 4) + cl"
    and "py_slice (he + 4) (int (he + 4) + cl) buf = body"
    and "py_slice_from (int (he + 4) + cl) buf = rest"
  shows "scan_frames h s buf =
     (case h body s of Inl (e, s') \<Rightarrow> Some (Inl (e, s', rest)) | Inr s' \<Rightarrow> scan_frames h s' rest)"
  apply (subst scan_frames.simps)
  apply (simp only: assms Let_def option.case sum.case if_False)
  done

lemma scan_wait:
  assumes "py_find buf crlf2 = Some he"
    and "content_length_of (take he buf) = Inr (Some cl)"
    and "int (length buf) < int (he + 4) + cl"
  shows "scan_frames h s buf = Some (Inr (s, buf))"
  apply (subst scan_frames.simps)
  apply (simp only: assms Let_def option.case sum.case if_True)
  done

lemma py_find_crlf2_here: "py_find (crlf2 @ rest) crlf2 = Some 0"
  by (simp add: crlf2_def)

lemma py_find_crlf2_strict: "strict_prefix t crlf2 \<Longrightarrow> py_find t crlf2 = None"
  by (auto simp: strict_prefix_def crlf2_def prefix_Cons CR_def LF_def)

lemma py_split_no_CR: "CR \<notin> set xs \<Longrightarrow> py_split crlf xs = [xs]"
  by (induction xs) (auto simp: crlf_def)

lemma content_length_header_line: "content_length_of (header_line n) = Inr (Some (int n))"
proof -
  have low: "prefix ''content-length:'' (py_lower (header_line n))"
    by (simp add: header_line_def py_lower_def lower_byte_def char_of_def bit_0)
  have "drop 15 (header_line n) = CHR '' '' # show_nat n"
    by (simp add: header_line_def)
  moreover have "py_strip (CHR '' '' # show_nat n) = show_nat n"
    using py_strip_show_nat[of n] by (simp add: py_strip_def is_space_def)
  ultimately show ?thesis
    using low by (simp add: content_length_of_def py_split_no_CR header_line_no_CR py_int_show_nat)
qed

lemma py_find_frame: "py_find (lsp_frame b @ rest) crlf2 = Some (length (header_line (length b)))"
  using py_find_no_CR[OF header_line_no_CR, of "length b" "crlf2 @ b @ rest"]
  by (simp add: lsp_frame_def lsp_header_line py_find_crlf2_here)

lemma scan_frames_frame:
  "scan_frames h s (lsp_frame b @ rest) =
     (case h b s of Inl (e, s') \<Rightarrow> Some (Inl (e, s', rest)) | Inr s' \<Rightarrow> scan_frames h s' rest)"
proof -
  let ?H = "header_line (length b)"
  have buf: "lsp_frame b @ rest = ?H @ crlf2 @ b @ rest"
    by (simp add: lsp_frame_def lsp_header_line)
  have len4: "length crlf2 = 4" by (simp add: crlf2_def)
  show ?thesis
  proof (rule scan_step)
    show "py_find (lsp_frame b @ rest) crlf2 = Some (length ?H)" by (rule py_find_frame)
    show "content_length_of (take (length ?H) (lsp_frame b @ rest)) = Inr (Some (int (length b)))"
      by (simp add: buf content_length_header_line)
    show "\<not> int (length (lsp_frame b @ rest)) < int (length ?H + 4) + int (length b)"
      by (simp add: buf len4)
    show "py_slice (length ?H + 4) (int (length ?H + 4) + int (length b)) (lsp_frame b @ rest) = b"
      by (simp add: buf py_slice_def py_index_def len4)
    show "py_slice_from (int (length ?H + 4) + int (length b)) (lsp_frame b @ rest) = rest"
      by (simp add: buf py_slice_from_def py_index_def len4)
  qed
qed

lemma scan_frames_partial:
  assumes "strict_prefix p (lsp_frame b)"
  shows "scan_frames h s p = Some (Inr (s, p))"
proof -
  let ?H = "header_line (length b)"
  have len4: "length crlf2 = 4" by (simp add: crlf2_def)
  from assms have pre: "prefix p ((?H @ crlf2) @ b)" and ne: "p \<noteq> (?H @ crlf2) @ b"
    by (auto simp: strict_prefix_def lsp_frame_def lsp_header_line)
  have "strict_prefix p (?H @ crlf2) \<or> (\<exists>zs. p = (?H @ crlf2) @ zs \<and> prefix zs b)"
  proof (cases "p = ?H @ crlf2")
    case True
    then show ?thesis by simp
  next
    case False
    with pre show ?thesis unfolding prefix_append[of p "?H @ crlf2" b] strict_prefix_def by blast
  qed
  then consider (hdr) "strict_prefix p (?H @ crlf2)"
    | (body) zs where "p = (?H @ crlf2) @ zs" "prefix zs b"
    by blast
  then show ?thesis
  proof cases
    case hdr
    then have "prefix p ?H \<or> (\<exists>t. p = ?H @ t \<and> strict_prefix t crlf2)"
      unfolding strict_prefix_def prefix_append[of p ?H crlf2] by auto
    then consider (a) "prefix p ?H" | (b) t where "p = ?H @ t" "strict_prefix t crlf2"
      by blast
    then have "py_find p crlf2 = None"
    proof cases
      case a
      then have "CR \<notin> set p" using header_line_no_CR[of "length b"] set_mono_prefix by blast
      from py_find_no_CR[OF this, of "[]"] show ?thesis by (simp add: crlf2_def)
    next
      case b
      then show ?thesis by (simp add: py_find_no_CR header_line_no_CR py_find_crlf2_strict)
    qed
    then show ?thesis by (subst scan_frames.simps) simp
  next
    case body
    with ne have lt: "length zs < length b"
      by (auto simp: prefix_def)
    have fnd: "py_find p crlf2 = Some (length ?H)"
      using py_find_no_CR[OF header_line_no_CR, of "length b" "crlf2 @ zs"] body(1)
      by (simp add: py_find_crlf2_here)
    show ?thesis
    proof (rule scan_wait)
      show "py_find p crlf2 = Some (length ?H)" by (rule fnd)
      show "content_length_of (take (length ?H) p) = Inr (Some (int (length b)))"
        by (simp add: body(1) content_length_header_line)
      show "int (length p) < int (length ?H + 4) + int (length b)"
        using lt by (simp add: body(1) len4)
    qed
  qed
qed

lemma lsp_frame_nonempty [simp]: "lsp_frame b \<noteq> []" "[] \<noteq> lsp_frame b"
  by (simp_all add: lsp_frame_def lsp_header_def)

lemma frames_simps [simp]: "frames [] = []" "frames (b # bs) = lsp_frame b @ frames bs"
  by (simp_all add: frames_def)

lemma frames_append: "frames (xs @ ys) = frames xs @ frames ys"
  by (simp add: frames_def)

lemma scan_frames_empty: "scan_frames h s [] = Some (Inr (s, []))"
  by (subst scan_frames.simps) (simp add: crlf2_def)

lemma scan_frames_awaiting: "awaiting p bs \<Longrightarrow> scan_frames h s p = Some (Inr (s, p))"
  by (cases bs) (simp_all add: awaiting_def scan_frames_empty scan_frames_partial)

lemma scan_frames_deliver_ok:
  "deliver h s bs = Inr s' \<Longrightarrow> awaiting p rest \<Longrightarrow>
   scan_frames h s (frames bs @ p) = Some (Inr (s', p))"
proof (induction bs arbitrary: s)
  case Nil
  then show ?case by (simp add: scan_frames_awaiting)
next
  case (Cons b bs)
  then show ?case by (simp add: scan_frames_frame split: sum.splits)
qed

lemma scan_frames_deliver_raise:
  "deliver h s bs = Inl (e, s') \<Longrightarrow> \<exists>buf'. scan_frames h s (frames bs @ p) = Some (Inl (e, s', buf'))"
proof (induction bs arbitrary: s)
  case Nil
  then show ?case by simp
next
  case (Cons b bs)
  then show ?case by (auto simp: scan_frames_frame split: sum.splits)
qed

lemma deliver_append:
  "deliver h s (xs @ ys) = (case deliver h s xs of Inl e \<Rightarrow> Inl e | Inr s' \<Rightarrow> deliver h s' ys)"
  by (induction xs arbitrary: s) (auto split: sum.splits)

lemma prefix_frames_split:
  "prefix x (frames bs) \<Longrightarrow> \<exists>k p. k \<le> length bs \<and> x = frames (take k bs) @ p \<and> awaiting p (drop k bs)"
proof (induction bs arbitrary: x)
  case Nil
  then show ?case by (simp add: awaiting_def)
next
  case (Cons b bs)
  show ?case
  proof (cases "strict_prefix x (lsp_frame b)")
    case True
    then have "x = frames (take 0 (b # bs)) @ x \<and> awaiting x (drop 0 (b # bs))"
      by (simp add: awaiting_def)
    then show ?thesis by blast
  next
    case False
    with Cons.prems obtain zs where x: "x = lsp_frame b @ zs" and zs: "prefix zs (frames bs)"
      by (auto simp: prefix_append strict_prefix_def)
    from Cons.IH[OF zs] obtain k p where "k \<le> length bs" "zs = frames (take k bs) @ p"
      "awaiting p (drop k bs)" by blast
    with x have "Suc k \<le> length (b # bs) \<and> x = frames (take (Suc k) (b # bs)) @ p
        \<and> awaiting p (drop (Suc k) (b # bs))" by simp
    then show ?thesis by blast
  qed
qed

lemma read_chunks_frames:
  "buf @ concat chunks = frames bs \<Longrightarrow> awaiting buf bs \<Longrightarrow> [] \<notin> set chunks \<Longrightarrow>
   read_chunks h s buf chunks = Some (deliver h s bs)"
proof (induction chunks arbitrary: s buf bs)
  case Nil
  have "bs = []"
  proof (cases bs)
    case (Cons b bs')
    with Nil show ?thesis by (auto simp: awaiting_def strict_prefix_def prefix_def)
  qed simp
  then show ?case by simp
next
  case (Cons c cs)
  from Cons.prems have ne: "c \<noteq> []" and cs: "[] \<notin> set cs" by auto
  from Cons.prems(1) have "prefix (buf @ c) (frames bs)" by (simp add: prefix_def) (metis append.assoc)
  from prefix_frames_split[OF this] obtain k p where
    k: "k \<le> length bs" and bc: "buf @ c = frames (take k bs) @ p" and aw: "awaiting p (drop k bs)"
    by blast
  have "frames bs = frames (take k bs) @ frames (drop k bs)"
    by (metis append_take_drop_id frames_append)
  moreover have "buf @ concat (c # cs) = (buf @ c) @ concat cs" by simp
  ultimately have "(frames (take k bs) @ p) @ concat cs = frames (take k bs) @ frames (drop k bs)"
    using Cons.prems(1) bc by metis
  then have rest: "p @ concat cs = frames (drop k bs)" by simp
  have dl: "deliver h s bs = (case deliver h s (take k bs) of Inl e \<Rightarrow> Inl e | Inr s' \<Rightarrow> deliver h s' (drop k bs))"
    by (metis append_take_drop_id deliver_append)
  show ?case
  proof (cases "deliver h s (take k bs)")
    case (Inl es)
    obtain e s' where es: "es = (e, s')" by (cases es)
    from scan_frames_deliver_raise[OF Inl[unfolded es], of p] obtain buf' where
      "scan_frames h s (frames (take k bs) @ p) = Some (Inl (e, s', buf'))" by blast
    with ne bc dl Inl es show ?thesis by simp
  next
    case (Inr s')
    from scan_frames_deliver_ok[OF Inr aw]
    have "scan_frames h s (buf @ c) = Some (Inr (s', p))" by (simp add: bc)
    with ne dl Inr Cons.IH[OF rest aw cs, of s'] show ?thesis by simp
  qed
qed

section \<open>The router on responses\<close>

lemma state_of_simps [simp]: "state_of (Inr s) = s" "state_of (Inl (e, s)) = s"
  by (simp_all add: state_of_def)

lemma hash_key_Some_not_null: "hash_key v = Inr (Some k) \<Longrightarrow> v \<noteq> JNull"
  by (cases v) auto


lemma dispatch_one_event:
  "dispatch_lsp_response meth rid res st = Inr st' \<Longrightarrow> \<exists>ev. resp_log st' = resp_log st @ [ev]"
  by (auto simp: dispatch_lsp_response_def write_resp_def lsp_notify_def lsp_send_def
      split: sum.splits json.splits if_splits)

lemma handle_response_registered:
  assumes "hash_key (dict_get m ''id'' JNull) = Inr (Some k)"
    and "dict_get m ''method'' JNull = JNull"
    and "pending_requests st k = Some (rid, meth)"
  shows "handle_lsp_message (JObj m) st =
     (if truthy (dict_get m ''error'' JNull)
      then Inr (write_resp (JObj [(''type'', JStr ''error''), (''id'', rid),
                                  (''error'', dict_get m ''error'' JNull)])
                 (st\<lparr>pending_requests := (pending_requests st)(k := None)\<rparr>))
      else dispatch_lsp_response meth rid (dict_get m ''result'' JNull)
             (st\<lparr>pending_requests := (pending_requests st)(k := None)\<rparr>))"
  using assms hash_key_Some_not_null[OF assms(1)]
  by (simp add: handle_lsp_message_def Let_def)

lemma handle_response_unknown:
  assumes "hash_key (dict_get m ''id'' JNull) = Inr key"
    and "dict_get m ''id'' JNull \<noteq> JNull"
    and "dict_get m ''method'' JNull = JNull"
    and "key = None \<or> (\<exists>k. key = Some k \<and> pending_requests st k = None)"
  shows "handle_lsp_message (JObj m) st = Inr st"
  using assms by (auto simp: handle_lsp_message_def Let_def)


section \<open>Why the decode pass is a partial function\<close>

text \<open>
  \<^verbatim>\<open>int\<close> accepts a sign.  With the header \<^verbatim>\<open>Content-Length: -23\<close>, which is 23 bytes long
  with its blank line, the slice \<^verbatim>\<open>buf[start + content_length:]\<close> is the whole buffer
  again and the body is empty: as long as the handler does not raise (the \<^verbatim>\<open>try\<close> block
  of the source logs the parse error of an empty body and goes on), the pass never
  leaves its loop.
\<close>

lemma scan_frames_may_diverge:
  assumes total: "\<forall>b s. \<exists>s'. h b s = Inr s'"
  shows "scan_frames h s (''Content-Length: -23'' @ crlf2) = None"
proof (cases "scan_frames h s (''Content-Length: -23'' @ crlf2)")
  case None
  then show ?thesis .
next
  case (Some r)
  have "(\<forall>b s. \<exists>s'. h b s = Inr s')
          \<longrightarrow> ''Content-Length: -23'' @ crlf2 = ''Content-Length: -23'' @ crlf2 \<longrightarrow> False"
  proof (rule scan_frames.raw_induct[where P = "\<lambda>h s buf r.
           (\<forall>b s. \<exists>s'. h b s = Inr s') \<longrightarrow> buf = ''Content-Length: -23'' @ crlf2 \<longrightarrow> False", OF _ Some])
    fix f :: "(bytes \<Rightarrow> 'a \<Rightarrow> 'a result) \<Rightarrow> 'a \<Rightarrow> bytes \<Rightarrow> ('a \<times> bytes) result option"
    fix h :: "bytes \<Rightarrow> 'a \<Rightarrow> 'a result" and s buf r
    assume ih: "\<And>h s buf r. f h s buf = Some r \<Longrightarrow>
                 (\<forall>b s. \<exists>s'. h b s = Inr s') \<longrightarrow> buf = ''Content-Length: -23'' @ crlf2 \<longrightarrow> False"
    assume step: "(case py_find buf crlf2 of None \<Rightarrow> Some (Inr (s, buf))
      | Some header_end \<Rightarrow>
          case content_length_of (take header_end buf) of
          Inl e \<Rightarrow> Some (Inl (e, s, buf))
          | Inr None \<Rightarrow> Some (Inr (s, drop (header_end + 4) buf))
          | Inr (Some content_length) \<Rightarrow>
              let start = header_end + 4; stop = int start + content_length
              in if int (length buf) < stop then Some (Inr (s, buf))
                 else case h (py_slice start stop buf) s of
                      Inl (e, s') \<Rightarrow> Some (Inl (e, s', py_slice_from stop buf))
                      | Inr s' \<Rightarrow> f h s' (py_slice_from stop buf)) = Some r"
    show "(\<forall>b s. \<exists>s'. h b s = Inr s') \<longrightarrow> buf = ''Content-Length: -23'' @ crlf2 \<longrightarrow> False"
    proof (intro impI)
      assume hh: "\<forall>b s. \<exists>s'. h b s = Inr s'" and bb: "buf = ''Content-Length: -23'' @ crlf2"
      from hh obtain s' where s': "h [] s = Inr s'" by blast
      from step have "f h s' buf = Some r"
        unfolding bb using s'
        by (simp add: crlf2_def CR_def LF_def content_length_of_def crlf_def py_lower_def lower_byte_def
            py_int_def py_strip_def is_space_def py_nat_def is_digit_def digit_val_def py_slice_def
            py_slice_from_def py_index_def char_of_def bit_0)
      from ih[OF this] hh bb show False by simp
    qed
  qed
  with total show ?thesis by simp
qed

section \<open>The watcher\<close>

lemma universal_newlines_empty: "universal_newlines s = [] \<longleftrightarrow> s = []"
  by (induction s rule: universal_newlines.induct) auto

lemma utf8_valid_empty: "utf8_valid []"
  by (simp add: utf8_valid.simps)

lemma cmd_poll_truncation:
  assumes "observes_truncation content file_size last_pos"
  shows "cmd_poll loads content file_size (last_pos, st) = Inr (0, st)"
proof -
  from assms obtain data n where c: "content = Some data" "file_size = Some n"
    and d: "drop last_pos data = []" and lt: "n < last_pos"
    by (auto simp: observes_truncation_def split: option.splits)
  from d have "length data \<le> last_pos" by simp
  with c d lt show ?thesis
    by (simp add: cmd_poll_def Let_def max_def utf8_valid_empty)
qed

section \<open>The claims\<close>

subsection \<open>C1: incremental decoding\<close>

text \<open>
  Claim C1.  Let the concatenation of the chunks be a valid stream, that is the frames
  of some list of bodies one after the other, and let no chunk be empty (an empty read
  is the end of the stream).  Then feeding the chunks one by one, wherever the stream was
  cut, hands exactly these bodies to the handler, in their order and each once; and so does
  feeding the whole concatenation as a single chunk.  This holds for every handler and
  every state, so nothing the handler can observe tells the two runs apart.
\<close>

theorem chunked_decoding_equals_whole:
  assumes "concat chunks = frames bodies" and "[] \<notin> set chunks"
  shows "read_chunks h s [] chunks = Some (deliver h s bodies)
       \<and> read_chunks h s [] [concat chunks] = Some (deliver h s bodies)"
proof
  have aw: "awaiting [] bodies"
    by (cases bodies) (auto simp: awaiting_def strict_prefix_def)
  from assms aw show "read_chunks h s [] chunks = Some (deliver h s bodies)"
    by (intro read_chunks_frames) simp_all
  show "read_chunks h s [] [concat chunks] = Some (deliver h s bodies)"
  proof (cases "concat chunks = []")
    case True
    with assms(1) have "bodies = []" by (cases bodies) simp_all
    with True show ?thesis by simp
  next
    case False
    with assms(1) aw show ?thesis by (intro read_chunks_frames) simp_all
  qed
qed

text \<open>
  The theorem at work: two frames cut into five chunks inside the header name, inside
  the blank line, inside the next header and inside a body; the handler records what it
  is given.
\<close>

theorem chunked_decoding_witness:
  "concat [''Content-Le'', ''ngth: 2'' @ [CR], [LF, CR, LF] @ ''{}Cont'',
           ''ent-Length: 3'' @ crlf2 @ ''[1'', '']''] = frames [''{}'', ''[1]'']
   \<and> [] \<notin> set [''Content-Le'', ''ngth: 2'' @ [CR], [LF, CR, LF] @ ''{}Cont'',
                 ''ent-Length: 3'' @ crlf2 @ ''[1'', '']'']
   \<and> read_chunks (\<lambda>b s. Inr (s @ [b])) [] []
        [''Content-Le'', ''ngth: 2'' @ [CR], [LF, CR, LF] @ ''{}Cont'',
         ''ent-Length: 3'' @ crlf2 @ ''[1'', '']''] = Some (Inr [''{}'', ''[1]''])"
proof -
  let ?cs = "[''Content-Le'', ''ngth: 2'' @ [CR], [LF, CR, LF] @ ''{}Cont'',
              ''ent-Length: 3'' @ crlf2 @ ''[1'', '']'']"
  have h1: "concat ?cs = frames [''{}'', ''[1]'']"
    by (simp add: frames_def lsp_frame_def lsp_header_def crlf2_def show_nat.simps
        digit_char_def char_of_def bit_0)
  have h2: "[] \<notin> set ?cs" by simp
  from chunked_decoding_equals_whole[OF h1 h2, of "\<lambda>b s. Inr (s @ [b])" "[]"] h1 h2
  show ?thesis by simp
qed

subsection \<open>C2: a registry entry is resolved at most once\<close>




subsection \<open>C3: a header block without Content-Length\<close>

text \<open>
  Claim C3 says that after a header block without \<^verbatim>\<open>Content-Length\<close> the decoder goes on
  scanning in the same pass, so that complete frames later in the buffer are decoded
  before it waits for input.  The code discards the block and then leaves the pass
  (\<^verbatim>\<open>break\<close> at line 123), while the sibling path for a body that does not parse goes
  on scanning.  Here the buffer holds such a block and then one complete frame: the pass
  returns with the frame still in the buffer and the handler not called, and when the
  stream ends there the frame is never handled.
\<close>

theorem missing_content_length_leaves_pass:
  "scan_frames h s (''X-Trace: 1'' @ crlf2 @ lsp_frame ''{}'') = Some (Inr (s, lsp_frame ''{}''))
   \<and> read_chunks h s [] [''X-Trace: 1'' @ crlf2 @ lsp_frame ''{}''] = Some (Inr s)"
proof -
  have pass: "scan_frames h s (''X-Trace: 1'' @ crlf2 @ lsp_frame ''{}'') = Some (Inr (s, lsp_frame ''{}''))"
    by (subst scan_frames.simps)
       (simp add: crlf2_def CR_def LF_def content_length_of_def crlf_def py_lower_def lower_byte_def)
  then show ?thesis by simp
qed

subsection \<open>C4: a \<^verbatim>\<open>workspace/configuration\<close> request\<close>

text \<open>
  Claim C4 says that a \<^verbatim>\<open>workspace/configuration\<close> request produces an event on the response
  log and a reply.  The branch of lines 189 to 193 only replies: it has no call of
  \<^verbatim>\<open>write_resp\<close>, unlike the branches for \<^verbatim>\<open>window/showMessageRequest\<close> and
  \<^verbatim>\<open>window/showDocument\<close>, and no event type for it exists.  At a running bridge with an
  empty response log, request 7 for one item is answered and the log stays empty.
\<close>

theorem configuration_request_no_event:
  "handle_lsp_message
     (JObj [(''jsonrpc'', JStr ''2.0''), (''id'', JNum 7),
            (''method'', JStr ''workspace/configuration''),
            (''params'', JObj [(''items'', JArr [JObj [(''section'', JStr ''github.copilot'')]])])])
     running_bridge
   = Inr (running_bridge\<lparr>lsp_stdin :=
            [JObj [(''jsonrpc'', JStr ''2.0''), (''id'', JNum 7), (''result'', JArr [JNull])]]\<rparr>)
   \<and> resp_log (state_of (handle_lsp_message
        (JObj [(''jsonrpc'', JStr ''2.0''), (''id'', JNum 7),
               (''method'', JStr ''workspace/configuration''),
               (''params'', JObj [(''items'', JArr [JObj [(''section'', JStr ''github.copilot'')]])])])
        running_bridge)) = []"
  by (simp add: handle_lsp_message_def dict_get_def lsp_send_def running_bridge_def)

text \<open>
  Claim C4 as amended.  Take a decoded \<^verbatim>\<open>workspace/configuration\<close> request (a method and an
  id) whose \<^verbatim>\<open>params\<close> is an object, or absent, and whose \<^verbatim>\<open>items\<close> has a length \<open>n\<close> (a
  list, or absent).  With the subprocess running, the handler returns normally and the
  only change is one message written to the subprocess: the reply under the request's
  id whose result is a list of \<open>n\<close> nulls.  The response log is as it was.
\<close>

theorem configuration_request_reply:
  assumes "dict_get m ''method'' JNull = JStr ''workspace/configuration''"
    and "dict_get m ''id'' JNull \<noteq> JNull"
    and "dict_get m ''params'' (JObj []) = JObj params"
    and "py_len (dict_get params ''items'' (JArr [])) = Inr n"
    and "lsp_process st = Running"
  shows "handle_lsp_message (JObj m) st =
           Inr (st\<lparr>lsp_stdin := lsp_stdin st @
                  [JObj [(''jsonrpc'', JStr ''2.0''), (''id'', dict_get m ''id'' JNull),
                         (''result'', JArr (replicate n JNull))]]\<rparr>)
       \<and> resp_log (state_of (handle_lsp_message (JObj m) st)) = resp_log st"
  using assms by (simp add: handle_lsp_message_def Let_def lsp_send_def)

text \<open>The amended claim at request 7 for two items.\<close>

theorem configuration_request_reply_witness:
  "dict_get [(''id'', JNum 7), (''method'', JStr ''workspace/configuration''),
             (''params'', JObj [(''items'', JArr [JObj [], JObj []])])] ''method'' JNull
     = JStr ''workspace/configuration''
   \<and> dict_get [(''id'', JNum 7), (''method'', JStr ''workspace/configuration''),
               (''params'', JObj [(''items'', JArr [JObj [], JObj []])])] ''id'' JNull \<noteq> JNull
   \<and> dict_get [(''id'', JNum 7), (''method'', JStr ''workspace/configuration''),
               (''params'', JObj [(''items'', JArr [JObj [], JObj []])])] ''params'' (JObj [])
       = JObj [(''items'', JArr [JObj [], JObj []])]
   \<and> py_len (dict_get [(''items'', JArr [JObj [], JObj []])] ''items'' (JArr [])) = Inr 2
   \<and> lsp_process running_bridge = Running
   \<and> handle_lsp_message
        (JObj [(''id'', JNum 7), (''method'', JStr ''workspace/configuration''),
               (''params'', JObj [(''items'', JArr [JObj [], JObj []])])]) running_bridge
      = Inr (running_bridge\<lparr>lsp_stdin :=
               [JObj [(''jsonrpc'', JStr ''2.0''), (''id'', JNum 7),
                      (''result'', JArr [JNull, JNull])]]\<rparr>)"
proof -
  let ?p = "[(''items'', JArr [JObj [], JObj []])]"
  let ?m = "[(''id'', JNum 7), (''method'', JStr ''workspace/configuration''), (''params'', JObj ?p)]"
  have a1: "dict_get ?m ''method'' JNull = JStr ''workspace/configuration''"
    by (simp add: dict_get_def)
  have a2: "dict_get ?m ''id'' JNull \<noteq> JNull" by (simp add: dict_get_def)
  have a3: "dict_get ?m ''params'' (JObj []) = JObj ?p" by (simp add: dict_get_def)
  have a4: "py_len (dict_get ?p ''items'' (JArr [])) = Inr 2" by (simp add: dict_get_def)
  have a5: "lsp_process running_bridge = Running" by (simp add: running_bridge_def)
  have id7: "dict_get ?m ''id'' JNull = JNum 7" by (simp add: dict_get_def)
  have rep: "replicate 2 JNull = [JNull, JNull]" by (simp add: numeral_2_eq_2)
  from configuration_request_reply[OF a1 a2 a3 a4 a5]
  have "handle_lsp_message (JObj ?m) running_bridge =
           Inr (running_bridge\<lparr>lsp_stdin := lsp_stdin running_bridge @
                  [JObj [(''jsonrpc'', JStr ''2.0''), (''id'', dict_get ?m ''id'' JNull),
                         (''result'', JArr (replicate 2 JNull))]]\<rparr>)"
    by (rule conjunct1)
  then have c: "handle_lsp_message (JObj ?m) running_bridge
      = Inr (running_bridge\<lparr>lsp_stdin :=
               [JObj [(''jsonrpc'', JStr ''2.0''), (''id'', JNum 7),
                      (''result'', JArr [JNull, JNull])]]\<rparr>)"
    by (simp only: id7 rep) (simp add: running_bridge_def)
  from a1 a2 a3 a4 a5 c show ?thesis by blast
qed

subsection \<open>C5: a method the router does not know\<close>

text \<open>
  Claim C5.  Take a decoded object that carries a method for which \<^verbatim>\<open>handle_lsp_message\<close> has
  no branch.
  \<^item> If it carries an id (a request of the server) and the subprocess is running, the
    handler returns normally and the only change is one message written to the
    subprocess: the JSON-RPC error reply under that id, with code \<open>-32601\<close>.
  \<^item> If it carries no id (a notification), the handler returns normally and changes
    nothing: no reply is sent.
\<close>

theorem unrecognized_method_reply:
  assumes "dict_get m ''method'' JNull = meth"
    and "meth \<noteq> JNull"
    and "meth \<notin> JStr ` set handled_methods"
  shows "(dict_get m ''id'' JNull \<noteq> JNull \<and> lsp_process st = Running \<longrightarrow>
            handle_lsp_message (JObj m) st =
              Inr (st\<lparr>lsp_stdin := lsp_stdin st @
                     [JObj [(''jsonrpc'', JStr ''2.0''), (''id'', dict_get m ''id'' JNull),
                            (''error'', JObj [(''code'', JNum (- 32601)),
                                              (''message'', JStr ''Method not found'')])]]\<rparr>))
       \<and> (dict_get m ''id'' JNull = JNull \<longrightarrow> handle_lsp_message (JObj m) st = Inr st)"
proof -
  from assms have no:
    "meth \<noteq> JStr ''$/logTrace''" "meth \<noteq> JStr ''$/progress''"
    "meth \<noteq> JStr ''window/logMessage''" "meth \<noteq> JStr ''window/showMessage''"
    "meth \<noteq> JStr ''window/showMessageRequest''" "meth \<noteq> JStr ''window/showDocument''"
    "meth \<noteq> JStr ''workspace/configuration''" "meth \<noteq> JStr ''copilot/didChangeStatus''"
    "meth \<noteq> JStr ''didChangeStatus''" "meth \<noteq> JStr ''statusNotification''"
    by (auto simp: handled_methods_def)
  show ?thesis
    using assms(1,2) no
    by (simp add: handle_lsp_message_def Let_def lsp_send_def method_not_found_def)
qed

text \<open>
  The theorem at a running bridge, for the method \<^verbatim>\<open>client/registerCapability\<close>: sent as
  request 5 it is answered with the error, sent as a notification it is not answered.
\<close>

theorem unrecognized_method_reply_witness:
  "dict_get [(''id'', JNum 5), (''method'', JStr ''client/registerCapability'')] ''method'' JNull
     = JStr ''client/registerCapability''
   \<and> JStr ''client/registerCapability'' \<noteq> JNull
   \<and> JStr ''client/registerCapability'' \<notin> JStr ` set handled_methods
   \<and> lsp_process running_bridge = Running
   \<and> handle_lsp_message (JObj [(''id'', JNum 5), (''method'', JStr ''client/registerCapability'')])
        running_bridge
      = Inr (running_bridge\<lparr>lsp_stdin :=
               [JObj [(''jsonrpc'', JStr ''2.0''), (''id'', JNum 5),
                      (''error'', JObj [(''code'', JNum (- 32601)),
                                        (''message'', JStr ''Method not found'')])]]\<rparr>)
   \<and> handle_lsp_message (JObj [(''method'', JStr ''client/registerCapability'')]) running_bridge
      = Inr running_bridge"
proof -
  let ?meth = "JStr ''client/registerCapability''"
  let ?req = "[(''id'', JNum 5), (''method'', ?meth)]"
  let ?note = "[(''method'', ?meth)]"
  have a1: "dict_get ?req ''method'' JNull = ?meth" by (simp add: dict_get_def)
  have a1': "dict_get ?note ''method'' JNull = ?meth" by (simp add: dict_get_def)
  have a2: "?meth \<noteq> JNull" by simp
  have a3: "?meth \<notin> JStr ` set handled_methods" by (simp add: handled_methods_def)
  have run: "lsp_process running_bridge = Running" by (simp add: running_bridge_def)
  have id5: "dict_get ?req ''id'' JNull = JNum 5" by (simp add: dict_get_def)
  have id0: "dict_get ?note ''id'' JNull = JNull" by (simp add: dict_get_def)
  from unrecognized_method_reply[OF a1 a2 a3, of running_bridge] run id5
  have c1: "handle_lsp_message (JObj ?req) running_bridge
      = Inr (running_bridge\<lparr>lsp_stdin :=
               [JObj [(''jsonrpc'', JStr ''2.0''), (''id'', JNum 5),
                      (''error'', JObj [(''code'', JNum (- 32601)),
                                        (''message'', JStr ''Method not found'')])]]\<rparr>)"
    by (simp add: running_bridge_def)
  from unrecognized_method_reply[OF a1' a2 a3, of running_bridge] id0
  have c2: "handle_lsp_message (JObj ?note) running_bridge = Inr running_bridge"
    by blast
  from a1 a2 a3 run c1 c2 show ?thesis by blast
qed

subsection \<open>C6: the read offset of the command log\<close>

text \<open>
  Claim C6 says that after a truncation is observed, content consumed before it is not
  delivered again.  The code resets the offset to zero and reads the file from its
  start in the next iteration, whatever it holds.  Here the file holds a \<^verbatim>\<open>signOut\<close> and a
  \<^verbatim>\<open>signIn\<close> command (39 bytes), both consumed by the first iteration; it is then cut to its
  first line (20 bytes), which the second iteration observes; the third iteration hands
  the \<^verbatim>\<open>signOut\<close> command to the dispatcher again, and the subprocess is sent a third
  request.
\<close>

theorem truncation_redelivers_retained_line:
  "cmd_file_watcher command_parser
     [(Some (command_line ''signOut'' @ [LF] @ command_line ''signIn'' @ [LF]), None),
      (Some (command_line ''signOut'' @ [LF]), Some 20),
      (Some (command_line ''signOut'' @ [LF]), None)]
     running_bridge
   = Inr (20, running_bridge\<lparr>request_counter := 3,
            lsp_stdin :=
              [JObj [(''jsonrpc'', JStr ''2.0''), (''id'', JNum 1), (''method'', JStr ''signOut''),
                     (''params'', JObj [])],
               JObj [(''jsonrpc'', JStr ''2.0''), (''id'', JNum 2), (''method'', JStr ''signIn''),
                     (''params'', JObj [])],
               JObj [(''jsonrpc'', JStr ''2.0''), (''id'', JNum 3), (''method'', JStr ''signOut''),
                     (''params'', JObj [])]]\<rparr>)"
  by (simp add: cmd_file_watcher_def cmd_poll_def Let_def utf8_valid.simps utf8_char_len_def
      in_range_def command_line_def quoted_def command_parser_def LF_def CR_def
      text_strip_def text_lstrip.simps text_rstrip.simps space_prefix_len_def
      space_suffix_len_def is_text_space_def dispatch_line_def handle_plugin_message_def
      dict_get_def lsp_request_def next_lsp_id_def lsp_send_def running_bridge_def)

text \<open>
  Claim C6 as amended.  In an iteration of the watcher that observes a file size below
  its offset, the offset becomes zero and the bridge state is what it was: that
  iteration hands no command to the dispatcher.  From then on the watcher goes on as one
  started afresh on that state: whatever the file holds from offset zero is read as new
  commands, and nothing is read when the file is empty.  In every other iteration that the
  loop survives the offset does not decrease.
\<close>

theorem truncation_resets_offset:
  "(observes_truncation content file_size last_pos \<longrightarrow>
      cmd_poll loads content file_size (last_pos, st) = Inr (0, st)
      \<and> (\<forall>polls. watch_polls loads ((content, file_size) # polls) (last_pos, st)
                    = cmd_file_watcher loads polls st))
   \<and> cmd_poll loads (Some []) any_size (0, st) = Inr (0, st)
   \<and> (\<not> observes_truncation content file_size last_pos \<longrightarrow>
        (\<forall>pos' st'. cmd_poll loads content file_size (last_pos, st) = Inr (pos', st') \<longrightarrow>
           last_pos \<le> pos'))"
proof (intro conjI impI allI)
  assume tr: "observes_truncation content file_size last_pos"
  then show "cmd_poll loads content file_size (last_pos, st) = Inr (0, st)"
    by (rule cmd_poll_truncation)
  fix polls
  from tr show "watch_polls loads ((content, file_size) # polls) (last_pos, st)
                  = cmd_file_watcher loads polls st"
    by (simp add: cmd_poll_truncation cmd_file_watcher_def)
next
  show "cmd_poll loads (Some []) any_size (0, st) = Inr (0, st)"
    by (cases any_size) (simp_all add: cmd_poll_def utf8_valid_empty)
next
  fix pos' st'
  assume no: "\<not> observes_truncation content file_size last_pos"
    and r: "cmd_poll loads content file_size (last_pos, st) = Inr (pos', st')"
  show "last_pos \<le> pos'"
  proof (cases content)
    case None
    with r show ?thesis by (simp add: cmd_poll_def)
  next
    case (Some data)
    from r Some have valid: "utf8_valid (drop last_pos data)"
      by (auto simp: cmd_poll_def split: if_splits)
    show ?thesis
    proof (cases "drop last_pos data = []")
      case True
      then have le: "length data \<le> last_pos" by simp
      from no Some True have "file_size = None \<or> (\<exists>n. file_size = Some n \<and> \<not> n < last_pos)"
        by (cases file_size) (auto simp: observes_truncation_def)
      with r Some le valid show ?thesis
        by (auto simp: cmd_poll_def Let_def max_def)
    next
      case False
      then have "last_pos < length data" by simp
      moreover from False have "universal_newlines (drop last_pos data) \<noteq> []"
        by (simp add: universal_newlines_empty)
      ultimately show ?thesis using r Some valid
        by (auto simp: cmd_poll_def Let_def max_def split: sum.splits)
    qed
  qed
qed

text \<open>
  The amended claim at a file of two bytes seen with the offset at nine (the offset goes
  to zero, nothing is dispatched, and the watcher goes on as one started afresh), and at
  the same file seen with the offset at two (the offset stays).
\<close>

theorem truncation_resets_offset_witness:
  "observes_truncation (Some ''{}'') (Some 2) 9
   \<and> cmd_poll (\<lambda>s. None) (Some ''{}'') (Some 2) (9, running_bridge) = Inr (0, running_bridge)
   \<and> watch_polls (\<lambda>s. None) [(Some ''{}'', Some 2), (Some ''{}'', None)] (9, running_bridge)
       = cmd_file_watcher (\<lambda>s. None) [(Some ''{}'', None)] running_bridge
   \<and> \<not> observes_truncation (Some ''{}'') (Some 2) 2
   \<and> cmd_poll (\<lambda>s. None) (Some ''{}'') (Some 2) (2, running_bridge) = Inr (2, running_bridge)
   \<and> (2::nat) \<le> 2"
proof -
  have a: "observes_truncation (Some ''{}'') (Some 2) 9"
    by (simp add: observes_truncation_def)
  have b: "\<not> observes_truncation (Some ''{}'') (Some 2) 2"
    by (simp add: observes_truncation_def)
  have r: "cmd_poll (\<lambda>s. None) (Some ''{}'') (Some 2) (2, running_bridge) = Inr (2, running_bridge)"
    by (simp add: cmd_poll_def utf8_valid_empty)
  note main = truncation_resets_offset[of "Some ''{}''" "Some 2" _ "\<lambda>s. None" running_bridge]
  from main[of 9] a
  have c1: "cmd_poll (\<lambda>s. None) (Some ''{}'') (Some 2) (9, running_bridge) = Inr (0, running_bridge)"
    and c1': "watch_polls (\<lambda>s. None) [(Some ''{}'', Some 2), (Some ''{}'', None)] (9, running_bridge)
       = cmd_file_watcher (\<lambda>s. None) [(Some ''{}'', None)] running_bridge"
    by blast+
  from main[of 2] b r
  have c2: "(2::nat) \<le> 2" by blast
  from a c1 c1' b r c2 show ?thesis by blast
qed

subsection \<open>C7: a line of the command log that is not an object\<close>

text \<open>
  Claim C7 says that no single line stops the watcher, be it invalid JSON, valid JSON
  that is not an object, or an object without a required field.  The \<^verbatim>\<open>except\<close> clause of
  line 383 catches \<^verbatim>\<open>JSONDecodeError\<close> and \<^verbatim>\<open>KeyError\<close>, which covers the first and the
  third; for valid JSON that is not an object \<^verbatim>\<open>msg.get\<close> raises \<^verbatim>\<open>AttributeError\<close>, which
  neither this clause nor the \<^verbatim>\<open>except OSError\<close> of line 385 catches.  Here the file holds
  the line \<^verbatim>\<open>5\<close> and then the line \<^verbatim>\<open>{"type": "signIn"}\<close>, and the parser reads \<^verbatim>\<open>5\<close> as the
  number: the loop is left with the exception in its first iteration, the state is as
  it was, and the second line has not been dispatched.
\<close>

theorem non_object_line_stops_watcher:
  assumes "loads ''5'' = Some (JNum 5)"
  shows "cmd_file_watcher loads
           [(Some (''5'' @ [LF] @ ''{'' @ [CHR 0x22] @ ''type'' @ [CHR 0x22] @ '': ''
                    @ [CHR 0x22] @ ''signIn'' @ [CHR 0x22] @ ''}'' @ [LF]), None)] st
         = Inl (AttributeError, (21, st))"
proof -
  let ?file = "''5'' @ [LF] @ ''{'' @ [CHR 0x22] @ ''type'' @ [CHR 0x22] @ '': ''
                 @ [CHR 0x22] @ ''signIn'' @ [CHR 0x22] @ ''}'' @ [LF]"
  let ?line2 = "''{'' @ [CHR 0x22] @ ''type'' @ [CHR 0x22] @ '': ''
                 @ [CHR 0x22] @ ''signIn'' @ [CHR 0x22] @ ''}''"
  have valid: "utf8_valid ?file"
    by (simp add: utf8_valid.simps utf8_char_len_def in_range_def LF_def)
  have nl: "universal_newlines ?file = ?file"
    by (simp add: LF_def CR_def)
  have strip: "text_strip ?file = ''5'' @ [LF] @ ?line2"
    by (simp add: text_strip_def text_lstrip.simps text_rstrip.simps space_prefix_len_def
        space_suffix_len_def is_text_space_def in_range_def LF_def)
  have split: "py_split [LF] (''5'' @ [LF] @ ?line2) = [''5'', ?line2]"
    by (simp add: LF_def)
  have five: "text_strip ''5'' = ''5''"
    by (simp add: text_strip_def text_lstrip.simps text_rstrip.simps space_prefix_len_def
        space_suffix_len_def is_text_space_def in_range_def)
  have first: "dispatch_line loads ''5'' st = Inl (AttributeError, st)"
    using assms by (simp add: dispatch_line_def five handle_plugin_message_def)
  have "cmd_poll loads (Some ?file) None (0, st) = Inl (AttributeError, (21, st))"
    using valid by (simp add: cmd_poll_def nl strip split first del: append.simps)
  then show ?thesis by (simp add: cmd_file_watcher_def)
qed

text \<open>The theorem for a parser that knows the line \<^verbatim>\<open>5\<close>.\<close>

theorem non_object_line_stops_watcher_witness:
  "(\<lambda>s. if s = ''5'' then Some (JNum 5) else None) ''5'' = Some (JNum 5)
   \<and> cmd_file_watcher (\<lambda>s. if s = ''5'' then Some (JNum 5) else None)
        [(Some (''5'' @ [LF] @ ''{'' @ [CHR 0x22] @ ''type'' @ [CHR 0x22] @ '': ''
                 @ [CHR 0x22] @ ''signIn'' @ [CHR 0x22] @ ''}'' @ [LF]), None)] running_bridge
      = Inl (AttributeError, (21, running_bridge))"
proof -
  let ?loads = "\<lambda>s. if s = ''5'' then Some (JNum 5) else None"
  have h: "?loads ''5'' = Some (JNum 5)" by simp
  from non_object_line_stops_watcher[of ?loads running_bridge, OF h] h
  show ?thesis by blast
qed

subsection \<open>C8: encoding, then decoding\<close>

text \<open>
  Claim C8.  Let \<open>dumps\<close> and \<open>loads\<close> be the serialiser and the parser of the JSON
  library, and let the parser read back what the serialiser wrote for the message.
  \<^item> What \<^verbatim>\<open>lsp_send\<close> puts on the pipe of a running subprocess for the message is its
    frame, and the frame is \<^verbatim>\<open>Content-Length: n\<close>, a blank line and the body, with \<open>n\<close> the
    length of the body in bytes.
  \<^item> Decoding these bytes calls the handler exactly once, with the original message (so
    with its id, method, params, result and error), and then the stream is at its end.
\<close>

theorem encode_decode_roundtrip:
  assumes "loads (dumps msg) = Some msg"
  shows "(lsp_process st = Running \<longrightarrow>
            stdin_bytes dumps (lsp_send msg st) = stdin_bytes dumps st @ lsp_frame (dumps msg))
       \<and> lsp_frame (dumps msg)
            = ''Content-Length: '' @ show_nat (length (dumps msg)) @ crlf2 @ dumps msg
       \<and> read_chunks (decode_and_handle loads handler) s [] [lsp_frame (dumps msg)]
            = Some (handler msg s)"
proof (intro conjI impI)
  assume "lsp_process st = Running"
  then show "stdin_bytes dumps (lsp_send msg st) = stdin_bytes dumps st @ lsp_frame (dumps msg)"
    by (simp add: stdin_bytes_def lsp_send_def)
next
  show "lsp_frame (dumps msg) = ''Content-Length: '' @ show_nat (length (dumps msg)) @ crlf2 @ dumps msg"
    by (simp add: lsp_frame_def lsp_header_def)
next
  have aw: "awaiting [] [dumps msg]"
    by (auto simp: awaiting_def strict_prefix_def)
  have "read_chunks (decode_and_handle loads handler) s [] [lsp_frame (dumps msg)]
          = Some (deliver (decode_and_handle loads handler) s [dumps msg])"
    using aw by (intro read_chunks_frames) simp_all
  also have "deliver (decode_and_handle loads handler) s [dumps msg] = handler msg s"
    using assms by (simp add: decode_and_handle_def split: sum.splits)
  finally show "read_chunks (decode_and_handle loads handler) s [] [lsp_frame (dumps msg)]
                  = Some (handler msg s)" .
qed

text \<open>
  The theorem at a request with id 7, for a serialiser and a parser that agree on it, sent
  by a running bridge that has written nothing yet; the handler records the messages it is
  given.
\<close>

theorem encode_decode_roundtrip_witness:
  "(\<lambda>b. if b = ''{id:7}'' then Some (JObj [(''id'', JNum 7)]) else None)
      ((\<lambda>m. if m = JObj [(''id'', JNum 7)] then ''{id:7}'' else ''null'') (JObj [(''id'', JNum 7)]))
     = Some (JObj [(''id'', JNum 7)])
   \<and> lsp_process running_bridge = Running
   \<and> stdin_bytes (\<lambda>m. if m = JObj [(''id'', JNum 7)] then ''{id:7}'' else ''null'')
        (lsp_send (JObj [(''id'', JNum 7)]) running_bridge)
     = ''Content-Length: 6'' @ crlf2 @ ''{id:7}''
   \<and> read_chunks
        (decode_and_handle (\<lambda>b. if b = ''{id:7}'' then Some (JObj [(''id'', JNum 7)]) else None)
           (\<lambda>m s. Inr (s @ [m])))
        [] [] [''Content-Length: 6'' @ crlf2 @ ''{id:7}'']
     = Some (Inr [JObj [(''id'', JNum 7)]])"
proof -
  let ?loads = "\<lambda>b. if b = ''{id:7}'' then Some (JObj [(''id'', JNum 7)]) else None"
  let ?dumps = "\<lambda>m. if m = JObj [(''id'', JNum 7)] then ''{id:7}'' else ''null''"
  let ?rec = "\<lambda>m s. Inr (s @ [m]) :: json list result"
  let ?M = "JObj [(''id'', JNum 7)]"
  have h: "?loads (?dumps ?M) = Some ?M" by simp
  have run: "lsp_process running_bridge = Running" by (simp add: running_bridge_def)
  have fr: "lsp_frame ''{id:7}'' = ''Content-Length: 6'' @ crlf2 @ ''{id:7}''"
    by (simp add: lsp_frame_def lsp_header_def show_nat.simps digit_char_def char_of_def bit_0)
  have d: "?dumps ?M = ''{id:7}''" by simp
  have e: "stdin_bytes ?dumps running_bridge = []" by (simp add: stdin_bytes_def running_bridge_def)
  note main = encode_decode_roundtrip[of ?loads ?dumps ?M running_bridge ?rec "[]", OF h]
  from main run have "stdin_bytes ?dumps (lsp_send ?M running_bridge)
      = stdin_bytes ?dumps running_bridge @ lsp_frame (?dumps ?M)" by blast
  then have c1: "stdin_bytes ?dumps (lsp_send ?M running_bridge)
      = ''Content-Length: 6'' @ crlf2 @ ''{id:7}''"
    by (simp only: e d fr append_Nil)
  from main have "read_chunks (decode_and_handle ?loads ?rec) [] [] [lsp_frame (?dumps ?M)]
      = Some (?rec ?M [])" by blast
  then have "read_chunks (decode_and_handle ?loads ?rec) [] [] [lsp_frame ''{id:7}'']
      = Some (Inr [?M])" by (simp only: d) simp
  then have c2: "read_chunks (decode_and_handle ?loads ?rec) [] [] [''Content-Length: 6'' @ crlf2 @ ''{id:7}'']
      = Some (Inr [?M])" by (simp only: fr)
  from h run c1 c2 show ?thesis by blast
qed

subsection \<open>C9: the reply to an inline completion\<close>




subsection \<open>C10: an error response\<close>

text \<open>
  Claim C10.  Take a response whose id is registered, for the host's request \<open>rid\<close>, and
  whose \<^verbatim>\<open>error\<close> field is non-empty (true for Python).  Handling it removes the entry
  and appends exactly one event to the response log, of type \<^verbatim>\<open>error\<close>, with \<open>rid\<close> and
  the error payload; nothing else changes, so the translation of a successful reply does
  not run and nothing is sent to the subprocess.  Any later response with that id is
  dropped and leaves the state as it is.
\<close>

theorem error_response_event:
  assumes "hash_key (dict_get m ''id'' JNull) = Inr (Some k)"
    and "dict_get m ''method'' JNull = JNull"
    and "pending_requests st k = Some (rid, meth)"
    and "truthy (dict_get m ''error'' JNull)"
    and "st' = st\<lparr>pending_requests := (pending_requests st)(k := None),
                   resp_log := resp_log st @ [JObj [(''type'', JStr ''error''), (''id'', rid),
                                                     (''error'', dict_get m ''error'' JNull)]]\<rparr>"
  shows "handle_lsp_message (JObj m) st = Inr st'
       \<and> (\<forall>m2. hash_key (dict_get m2 ''id'' JNull) = Inr (Some k)
                 \<and> dict_get m2 ''method'' JNull = JNull \<longrightarrow>
               handle_lsp_message (JObj m2) st' = Inr st')"
proof (intro conjI allI impI)
  show "handle_lsp_message (JObj m) st = Inr st'"
    using assms by (simp add: handle_response_registered write_resp_def)
next
  fix m2
  assume m2: "hash_key (dict_get m2 ''id'' JNull) = Inr (Some k) \<and> dict_get m2 ''method'' JNull = JNull"
  then have "dict_get m2 ''id'' JNull \<noteq> JNull" by (simp add: hash_key_Some_not_null)
  moreover have "pending_requests st' k = None" using assms(5) by simp
  ultimately show "handle_lsp_message (JObj m2) st' = Inr st'"
    using m2 by (intro handle_response_unknown[where key = "Some k"]) simp_all
qed

text \<open>
  The theorem at a bridge awaiting the reply to request 1, a completion asked by the
  host as \<open>r1\<close>: the error reply gives one \<^verbatim>\<open>error\<close> event, and a second reply with the
  id 1 gives nothing.
\<close>

theorem error_response_event_witness:
  "hash_key (dict_get [(''id'', JNum 1), (''error'', JObj [(''code'', JNum (- 32603))])] ''id'' JNull)
     = Inr (Some 1)
   \<and> dict_get [(''id'', JNum 1), (''error'', JObj [(''code'', JNum (- 32603))])] ''method'' JNull = JNull
   \<and> pending_requests (bridge_awaiting 1 (JStr ''r1'') ''textDocument/inlineCompletion'') 1
        = Some (JStr ''r1'', ''textDocument/inlineCompletion'')
   \<and> truthy (dict_get [(''id'', JNum 1), (''error'', JObj [(''code'', JNum (- 32603))])] ''error'' JNull)
   \<and> handle_lsp_message (JObj [(''id'', JNum 1), (''error'', JObj [(''code'', JNum (- 32603))])])
        (bridge_awaiting 1 (JStr ''r1'') ''textDocument/inlineCompletion'')
      = Inr (running_bridge\<lparr>request_counter := 1,
               resp_log := [JObj [(''type'', JStr ''error''), (''id'', JStr ''r1''),
                                  (''error'', JObj [(''code'', JNum (- 32603))])]]\<rparr>)
   \<and> handle_lsp_message (JObj [(''id'', JNum 1), (''result'', JNull)])
        (running_bridge\<lparr>request_counter := 1,
               resp_log := [JObj [(''type'', JStr ''error''), (''id'', JStr ''r1''),
                                  (''error'', JObj [(''code'', JNum (- 32603))])]]\<rparr>)
      = Inr (running_bridge\<lparr>request_counter := 1,
               resp_log := [JObj [(''type'', JStr ''error''), (''id'', JStr ''r1''),
                                  (''error'', JObj [(''code'', JNum (- 32603))])]]\<rparr>)"
proof -
  let ?m = "[(''id'', JNum 1), (''error'', JObj [(''code'', JNum (- 32603))])]"
  let ?st = "bridge_awaiting 1 (JStr ''r1'') ''textDocument/inlineCompletion''"
  let ?st' = "running_bridge\<lparr>request_counter := 1,
               resp_log := [JObj [(''type'', JStr ''error''), (''id'', JStr ''r1''),
                                  (''error'', JObj [(''code'', JNum (- 32603))])]]\<rparr>"
  have a1: "hash_key (dict_get ?m ''id'' JNull) = Inr (Some 1)" by (simp add: dict_get_def)
  have a2: "dict_get ?m ''method'' JNull = JNull" by (simp add: dict_get_def)
  have a3: "pending_requests ?st 1 = Some (JStr ''r1'', ''textDocument/inlineCompletion'')"
    by (simp add: bridge_awaiting_def)
  have a4: "truthy (dict_get ?m ''error'' JNull)" by (simp add: dict_get_def)
  have a5: "?st' = ?st\<lparr>pending_requests := (pending_requests ?st)(1 := None),
                   resp_log := resp_log ?st @ [JObj [(''type'', JStr ''error''), (''id'', JStr ''r1''),
                                                     (''error'', dict_get ?m ''error'' JNull)]]\<rparr>"
    by (simp add: bridge_awaiting_def running_bridge_def dict_get_def)
  note main = error_response_event[OF a1 a2 a3 a4 a5]
  have b1: "hash_key (dict_get [(''id'', JNum 1), (''result'', JNull)] ''id'' JNull) = Inr (Some 1)
      \<and> dict_get [(''id'', JNum 1), (''result'', JNull)] ''method'' JNull = JNull"
    by (simp add: dict_get_def)
  from main have c1: "handle_lsp_message (JObj ?m) ?st = Inr ?st'" by (rule conjunct1)
  from main b1 have c2: "handle_lsp_message (JObj [(''id'', JNum 1), (''result'', JNull)]) ?st' = Inr ?st'"
    by blast
  from a1 a2 a3 a4 c1 c2 show ?thesis by blast
qed

end
